theory Spec2Isabelle
  imports Main "HOL-Library.Sublist" "HOL-Library.AList"
begin

section \<open>Paths\<close>

text \<open>
  A \<^verbatim>\<open>pathlib.Path\<close> is modelled by its \<^verbatim>\<open>parts\<close>: the list of its components, with
  \<open>''/''\<close> first for an absolute path.  \<open>Path\<close> parses a string the way pathlib does on
  POSIX: empty and \<open>''.''\<close> components are dropped (so \<^verbatim>\<open>Path("./output/orders/")\<close> has the
  parts \<open>[''output'', ''orders'']\<close> and \<^verbatim>\<open>Path(".")\<close> has none), \<open>''..''\<close> is kept.
\<close>

type_synonym path = "string list"

fun split_slash :: "string \<Rightarrow> string \<Rightarrow> string list" where
  "split_slash cur [] = [cur]"
| "split_slash cur (c # cs) =
     (if c = CHR ''/'' then cur # split_slash [] cs else split_slash (cur @ [c]) cs)"

definition Path :: "string \<Rightarrow> path" where
  "Path s =
     (case s of [] \<Rightarrow> [] | c # cs \<Rightarrow> if c = CHR ''/'' then [''/''] else [])
     @ filter (\<lambda>c. c \<noteq> [] \<and> c \<noteq> ''.'') (split_slash [] s)"

text \<open>
  \<^verbatim>\<open>p / name\<close>: the string is parsed like a path and its parts are appended; an absolute
  \<open>name\<close> replaces \<open>p\<close>.  \<^verbatim>\<open>p.parent\<close> drops the last part.
\<close>

definition joinpath :: "path \<Rightarrow> string \<Rightarrow> path" where
  "joinpath p name =
     (case name of [] \<Rightarrow> p | c # cs \<Rightarrow> if c = CHR ''/'' then Path name else p @ Path name)"

definition parent :: "path \<Rightarrow> path" where
  "parent p = (if p = [''/''] then p else butlast p)"

text \<open>
  The file system does not see paths but locations.  A relative path is taken from the
  working directory of the process, which the program never changes, and \<open>''..''\<close> steps
  back to the parent directory; \<open>normpath\<close> walks the parts from left to right and keeps
  the directory reached so far.  (Symbolic links are not modelled.)  Two paths name the same
  file exactly when their locations are equal, and a file lies under a directory exactly
  when the location of the directory is a prefix of its location.
\<close>

fun normpath :: "path \<Rightarrow> path \<Rightarrow> path" where
  "normpath at [] = at"
| "normpath at (c # cs) = normpath (if c = ''..'' then parent at else at @ [c]) cs"

definition is_absolute :: "path \<Rightarrow> bool" where
  "is_absolute p = (case p of [] \<Rightarrow> False | c # cs \<Rightarrow> c = ''/'')"

section \<open>The world the program acts on\<close>

text \<open>
  Exceptions are values.  \<open>HTTPError\<close> carries the status code; \<open>TimeoutError\<close> is the
  browser driver's error for an action whose element did not show up within the default
  timeout; \<open>OtherError\<close> stands for any other exception of a library.
\<close>

datatype error =
    HTTPError nat
  | ConnectionError
  | ValueError
  | FileNotFoundError
  | FileExistsError
  | TimeoutError
  | OtherError string

text \<open>
  File contents: raw bytes (the CSV, a PNG screenshot), a PDF as the list of the documents
  embedded in it, page by page, and a zip archive as its entries (name relative to the
  archived folder, content).
\<close>

datatype fdata =
    Bytes string
  | Pdf "fdata list"
  | Zip "(path \<times> fdata) list"

text \<open>
  One row of the orders table: the five columns \<^verbatim>\<open>get_orders\<close> projects.  The table
  reader yields every cell as the text that stands in the CSV file, and line 41 passes the
  cell \<^verbatim>\<open>order["Order number"]\<close> on as it is (the annotation \<^verbatim>\<open>int\<close> of the parameter
  converts nothing).  So an order number is a text, and the f-strings of tasks.py insert it
  unchanged.
\<close>

record order =
  order_number :: string
  head :: string
  body :: string
  legs :: string
  address :: string

text \<open>
  Every call the program makes into the HTTP client and the browser driver, in the order
  it makes them.  A call is recorded when it is made, whether or not it then raises;
  \<open>IsVisible\<close> records the answer the page gave.
\<close>

datatype call =
    HttpGet string
  | Configure
  | Goto string
  | SetDefaultTimeout nat
  | ClickRole string string
  | SelectOption string string
  | Click string
  | Fill string string
  | Screenshot string path
  | IsVisible string bool

record 'p world =
  page :: 'p
  files :: "(path \<times> fdata) list"
  dirs :: "path set"
  calls :: "call list"

text \<open>
  What lies outside the program: the process environment, the location of the source file
  (\<^verbatim>\<open>__file__\<close>) and the working directory of the process (\<^verbatim>\<open>os.getcwd()\<close>, an absolute
  path), the HTTP server, the table reader, and the web site behind the browser.  The site
  is a deterministic machine over page states \<open>'p\<close>: \<open>respond\<close> is its reaction to an
  action (the action raises, or the page moves to a new state), \<open>visible\<close> answers
  \<^verbatim>\<open>page.is_visible\<close>, and \<open>shot\<close> is the image a screenshot of a selector writes
  (\<open>None\<close>: the call returns and no file has been written).
\<close>

record 'p env =
  environ :: "string \<Rightarrow> string option"
  source_file :: string
  cwd :: string
  http_get :: "string \<Rightarrow> error + nat \<times> string"
  read_csv :: "fdata \<Rightarrow> error + order list"
  respond :: "'p \<Rightarrow> call \<Rightarrow> error + 'p"
  visible :: "'p \<Rightarrow> string \<Rightarrow> bool"
  shot :: "'p \<Rightarrow> string \<Rightarrow> string option"

section \<open>The libraries, as far as tasks.py uses them\<close>

subsection \<open>Files and directories\<close>

text \<open>
  \<open>loc E p\<close> is the location the path \<open>p\<close> names.  The \<open>files\<close> and \<open>dirs\<close> of a world
  are keyed by locations, and every operation on a path goes through \<open>loc\<close>.  The root and
  the working directory always exist.
\<close>

definition loc :: "'p env \<Rightarrow> path \<Rightarrow> path" where
  "loc E p = normpath [] (if is_absolute p then p else Path (cwd E) @ p)"

definition file_at :: "'p env \<Rightarrow> 'p world \<Rightarrow> path \<Rightarrow> fdata option" where
  "file_at E w p = map_of (files w) (loc E p)"

definition is_file :: "'p env \<Rightarrow> path \<Rightarrow> 'p world \<Rightarrow> bool" where
  "is_file E p w = (file_at E w p \<noteq> None)"

definition dir_at :: "'p env \<Rightarrow> 'p world \<Rightarrow> path \<Rightarrow> bool" where
  "dir_at E w l = (l = [''/''] \<or> l = loc E [] \<or> l \<in> dirs w)"

definition is_dir :: "'p env \<Rightarrow> path \<Rightarrow> 'p world \<Rightarrow> bool" where
  "is_dir E p w = dir_at E w (loc E p)"

definition write_file :: "'p env \<Rightarrow> path \<Rightarrow> fdata \<Rightarrow> 'p world \<Rightarrow> 'p world" where
  "write_file E p d w = w\<lparr>files := AList.update (loc E p) d (files w)\<rparr>"

text \<open>
  \<^verbatim>\<open>Path.mkdir(parents=True, exist_ok=True)\<close>: the directory and every missing ancestor
  exist afterwards.  \<^verbatim>\<open>Path.mkdir(exist_ok=True)\<close>: nothing to do when the directory exists,
  \<^verbatim>\<open>FileNotFoundError\<close> when its parent is missing.  (A regular file in the way is not
  modelled.)
\<close>

definition mkdir_parents :: "'p env \<Rightarrow> path \<Rightarrow> 'p world \<Rightarrow> 'p world" where
  "mkdir_parents E p w = w\<lparr>dirs := dirs w \<union> set (prefixes (loc E p))\<rparr>"

definition mkdir_exist_ok :: "'p env \<Rightarrow> path \<Rightarrow> 'p world \<Rightarrow> (error + unit) \<times> 'p world" where
  "mkdir_exist_ok E p w =
     (if is_dir E p w then (Inr (), w)
      else if dir_at E w (parent (loc E p)) then (Inr (), w\<lparr>dirs := insert (loc E p) (dirs w)\<rparr>)
      else (Inl FileNotFoundError, w))"

subsection \<open>The browser driver\<close>

text \<open>An action on the page: recorded, then the site decides.\<close>

definition browser_call :: "'p env \<Rightarrow> call \<Rightarrow> 'p world \<Rightarrow> (error + unit) \<times> 'p world" where
  "browser_call E c w =
     (let w1 = w\<lparr>calls := calls w @ [c]\<rparr> in
      case respond E (page w) c of
        Inl e \<Rightarrow> (Inl e, w1)
      | Inr p' \<Rightarrow> (Inr (), w1\<lparr>page := p'\<rparr>))"

definition is_visible :: "'p env \<Rightarrow> string \<Rightarrow> 'p world \<Rightarrow> bool \<times> 'p world" where
  "is_visible E sel w =
     (let b = visible E (page w) sel in (b, w\<lparr>calls := calls w @ [IsVisible sel b]\<rparr>))"

text \<open>
  \<^verbatim>\<open>page.locator(selector)\<close> only builds a locator object; it does not look at the page.
  The object defines neither \<^verbatim>\<open>__bool__\<close> nor \<^verbatim>\<open>__len__\<close>, so its truth value is
  \<^verbatim>\<open>True\<close>.  The element is looked up when an action is performed on the locator.
\<close>

datatype locator = Locator string

definition locator :: "string \<Rightarrow> locator" where
  "locator sel = Locator sel"

definition truthy :: "locator \<Rightarrow> bool" where
  "truthy l = True"

text \<open>
  \<^verbatim>\<open>locator.screenshot(path=...)\<close>: the driver takes the picture (and raises when the
  element does not show up), then creates the missing directories of the target and writes
  the file.
\<close>

definition screenshot :: "'p env \<Rightarrow> locator \<Rightarrow> path \<Rightarrow> 'p world \<Rightarrow> (error + unit) \<times> 'p world" where
  "screenshot E l target w =
     (case l of Locator sel \<Rightarrow>
        (case browser_call E (Screenshot sel target) w of
           (Inl e, w1) \<Rightarrow> (Inl e, w1)
         | (Inr u, w1) \<Rightarrow>
             (case shot E (page w) sel of
                None \<Rightarrow> (Inr (), w1)
              | Some png \<Rightarrow>
                  (Inr (), write_file E target (Bytes png) (mkdir_parents E (parent target) w1)))))"

subsection \<open>RPA.PDF and RPA.Archive\<close>

text \<open>
  \<^verbatim>\<open>add_files_to_pdf(files, target_document)\<close> reads the listed files in order and writes
  one document holding them in that order.  It raises \<^verbatim>\<open>FileNotFoundError\<close> when a listed
  file does not exist, and also when the directory the target is to be written into does
  not exist: it creates no directory.
\<close>

fun read_all :: "'p env \<Rightarrow> 'p world \<Rightarrow> path list \<Rightarrow> fdata list option" where
  "read_all E w [] = Some []"
| "read_all E w (p # ps) =
     (case file_at E w p of
        None \<Rightarrow> None
      | Some d \<Rightarrow> (case read_all E w ps of None \<Rightarrow> None | Some ds \<Rightarrow> Some (d # ds)))"

definition add_files_to_pdf ::
  "'p env \<Rightarrow> path list \<Rightarrow> path \<Rightarrow> 'p world \<Rightarrow> (error + unit) \<times> 'p world" where
  "add_files_to_pdf E fs target w =
     (case read_all E w fs of
        None \<Rightarrow> (Inl FileNotFoundError, w)
      | Some ds \<Rightarrow>
          if dir_at E w (parent (loc E target)) then (Inr (), write_file E target (Pdf ds) w)
          else (Inl FileNotFoundError, w))"

text \<open>
  \<^verbatim>\<open>archive_folder_with_zip(folder, archive_name, recursive=True)\<close> lists every file under
  the folder, raises \<^verbatim>\<open>ValueError\<close> when there is none, and otherwise writes one archive
  whose entries are named relative to the folder; opening the archive for writing raises
  \<^verbatim>\<open>FileNotFoundError\<close> when its directory does not exist.
\<close>

definition files_under :: "'p env \<Rightarrow> path \<Rightarrow> (path \<times> fdata) list \<Rightarrow> (path \<times> fdata) list" where
  "files_under E folder fs =
     map (\<lambda>(l, d). (drop (length (loc E folder)) l, d))
       (filter (\<lambda>(l, d). strict_prefix (loc E folder) l) (AList.clearjunk fs))"

definition archive_folder_with_zip ::
  "'p env \<Rightarrow> path \<Rightarrow> path \<Rightarrow> 'p world \<Rightarrow> (error + unit) \<times> 'p world" where
  "archive_folder_with_zip E folder archive_name w =
     (let filelist = files_under E folder (files w) in
      if filelist = [] then (Inl ValueError, w)
      else if dir_at E w (parent (loc E archive_name))
           then (Inr (), write_file E archive_name (Zip filelist) w)
      else (Inl FileNotFoundError, w))"

section \<open>tasks.py\<close>

subsection \<open>Module level (lines 14 to 19)\<close>

definition FILE_NAME :: string where
  "FILE_NAME = ''orders.csv''"

definition CSV_URL :: string where
  "CSV_URL = ''https://robotsparebinindustries.com/'' @ FILE_NAME"

definition OUTPUT_DIR :: "'p env \<Rightarrow> path" where
  "OUTPUT_DIR E =
     Path (case environ E ''ROBOT_ARTIFACTS'' of None \<Rightarrow> ''output'' | Some v \<Rightarrow> v)"

definition CURDIR :: "'p env \<Rightarrow> path" where
  "CURDIR E = parent (Path (source_file E))"

definition ORDERS_DIR :: "'p env \<Rightarrow> path" where
  "ORDERS_DIR E = joinpath (OUTPUT_DIR E) ''orders''"

text \<open>Line 19, run when the module is loaded: \<^verbatim>\<open>ORDERS_DIR.mkdir(parents=True, exist_ok=True)\<close>.\<close>

definition module_init :: "'p env \<Rightarrow> 'p world \<Rightarrow> 'p world" where
  "module_init E w = mkdir_parents E (ORDERS_DIR E) w"

subsection \<open>The functions, in the order of the file\<close>

definition create_new_order :: "'p env \<Rightarrow> 'p world \<Rightarrow> (error + unit) \<times> 'p world" where
  "create_new_order E w = browser_call E (ClickRole ''button'' ''Order another robot'') w"

definition screenshot_robot :: "'p env \<Rightarrow> path \<Rightarrow> 'p world \<Rightarrow> (error + unit) \<times> 'p world" where
  "screenshot_robot E robot_file w = screenshot E (locator ''#robot-preview-image'') robot_file w"

definition pdf_path :: "'p env \<Rightarrow> string \<Rightarrow> path" where
  "pdf_path E n = joinpath (ORDERS_DIR E) (''order_'' @ n @ ''.pdf'')"

definition receipt_path :: "'p env \<Rightarrow> string \<Rightarrow> path" where
  "receipt_path E n = joinpath (OUTPUT_DIR E) (''receipt_'' @ n @ ''.png'')"

definition robot_path :: "'p env \<Rightarrow> string \<Rightarrow> path" where
  "robot_path E n = joinpath (OUTPUT_DIR E) (''robot_'' @ n @ ''.png'')"

text \<open>
  The three file names are f-strings around the order number, joined to a directory with
  \<^verbatim>\<open>/\<close>.  \<open>capture\<close> is the \<^verbatim>\<open>if receipt_element := page.locator("#receipt")\<close> statement of
  lines 75 to 79, \<open>store_receipt_as_pdf\<close> the whole function.
\<close>

definition capture :: "'p env \<Rightarrow> string \<Rightarrow> 'p world \<Rightarrow> (error + unit) \<times> 'p world" where
  "capture E n w =
     (let receipt_element = locator ''#receipt'' in
      if truthy receipt_element then
        (case screenshot E receipt_element (receipt_path E n) w of
           (Inl e, w1) \<Rightarrow> (Inl e, w1)
         | (Inr u, w1) \<Rightarrow> screenshot_robot E (robot_path E n) w1)
      else (Inl ValueError, w))"

definition store_receipt_as_pdf :: "'p env \<Rightarrow> string \<Rightarrow> 'p world \<Rightarrow> (error + path) \<times> 'p world" where
  "store_receipt_as_pdf E n w =
     (let pdf_file = pdf_path E n;
          w0 = mkdir_parents E (OUTPUT_DIR E) w;
          receipt_file = receipt_path E n;
          robot_file = robot_path E n
      in case capture E n w0 of
           (Inl e, w2) \<Rightarrow> (Inl e, w2)
         | (Inr u, w2) \<Rightarrow>
             (let list_of_files = [receipt_file, robot_file] in
              if is_file E receipt_file w2 then
                (case add_files_to_pdf E list_of_files pdf_file w2 of
                   (Inl e, w3) \<Rightarrow> (Inl e, w3)
                 | (Inr u, w3) \<Rightarrow> (Inr pdf_file, w3))
              else (Inl FileNotFoundError, w2)))"

definition open_robot_order_website :: "'p env \<Rightarrow> 'p world \<Rightarrow> (error + unit) \<times> 'p world" where
  "open_robot_order_website E w =
     (case browser_call E Configure w of
        (Inl e, w1) \<Rightarrow> (Inl e, w1)
      | (Inr u, w1) \<Rightarrow> browser_call E (Goto ''https://robotsparebinindustries.com/'') w1)"

definition go_to_order_page :: "'p env \<Rightarrow> 'p world \<Rightarrow> (error + unit) \<times> 'p world" where
  "go_to_order_page E w = browser_call E (ClickRole ''link'' ''Order your robot!'') w"

definition close_annoying_modal :: "'p env \<Rightarrow> 'p world \<Rightarrow> (error + unit) \<times> 'p world" where
  "close_annoying_modal E w =
     (case is_visible E ''.modal-header'' w of
        (b, w1) \<Rightarrow> if b then browser_call E (ClickRole ''button'' ''OK'') w1 else (Inr (), w1))"

definition submit_order :: "'p env \<Rightarrow> 'p world \<Rightarrow> (error + unit) \<times> 'p world" where
  "submit_order E w = browser_call E (ClickRole ''button'' ''Order'') w"

definition set_address :: "'p env \<Rightarrow> string \<Rightarrow> 'p world \<Rightarrow> (error + unit) \<times> 'p world" where
  "set_address E a w = browser_call E (Fill ''Shipping address'' a) w"

definition set_legs :: "'p env \<Rightarrow> string \<Rightarrow> 'p world \<Rightarrow> (error + unit) \<times> 'p world" where
  "set_legs E l w = browser_call E (Fill ''Enter the part number'' l) w"

definition set_head :: "'p env \<Rightarrow> string \<Rightarrow> 'p world \<Rightarrow> (error + unit) \<times> 'p world" where
  "set_head E h w = browser_call E (SelectOption ''select#head.custom-select'' h) w"

definition set_body :: "'p env \<Rightarrow> string \<Rightarrow> 'p world \<Rightarrow> (error + unit) \<times> 'p world" where
  "set_body E b w = browser_call E (Click (''#id-body-'' @ b)) w"

definition fill_the_form :: "'p env \<Rightarrow> order \<Rightarrow> 'p world \<Rightarrow> (error + unit) \<times> 'p world" where
  "fill_the_form E ord w =
     (case set_head E (head ord) w of
        (Inl e, w1) \<Rightarrow> (Inl e, w1)
      | (Inr u, w1) \<Rightarrow>
     (case set_body E (body ord) w1 of
        (Inl e, w2) \<Rightarrow> (Inl e, w2)
      | (Inr u, w2) \<Rightarrow>
     (case set_legs E (legs ord) w2 of
        (Inl e, w3) \<Rightarrow> (Inl e, w3)
      | (Inr u, w3) \<Rightarrow> set_address E (address ord) w3)))"

definition download_file :: "'p env \<Rightarrow> string \<Rightarrow> path \<Rightarrow> string \<Rightarrow> 'p world \<Rightarrow> (error + path) \<times> 'p world" where
  "download_file E url target_dir target_filename w =
     (let w1 = w\<lparr>calls := calls w @ [HttpGet url]\<rparr> in
      case http_get E url of
        Inl e \<Rightarrow> (Inl e, w1)
      | Inr (status, content) \<Rightarrow>
          if 400 \<le> status \<and> status < 600 then (Inl (HTTPError status), w1)
          else
            (case mkdir_exist_ok E target_dir w1 of
               (Inl e, w2) \<Rightarrow> (Inl e, w2)
             | (Inr u, w2) \<Rightarrow>
                 (let local_file = joinpath target_dir target_filename in
                  (Inr local_file, write_file E local_file (Bytes content) w2))))"

text \<open>
  \<^verbatim>\<open>read_table_from_csv\<close> opens the file and hands its content to the table reader, which
  is outside the program (\<open>read_csv\<close>).
\<close>

definition read_table_from_csv :: "'p env \<Rightarrow> path \<Rightarrow> 'p world \<Rightarrow> (error + order list) \<times> 'p world" where
  "read_table_from_csv E csv_file w =
     (case file_at E w csv_file of
        None \<Rightarrow> (Inl FileNotFoundError, w)
      | Some d \<Rightarrow> (read_csv E d, w))"

definition get_orders :: "'p env \<Rightarrow> 'p world \<Rightarrow> (error + order list) \<times> 'p world" where
  "get_orders E w =
     (case download_file E CSV_URL (CURDIR E) FILE_NAME w of
        (Inl e, w1) \<Rightarrow> (Inl e, w1)
      | (Inr csv_file, w1) \<Rightarrow> read_table_from_csv E csv_file w1)"

text \<open>
  Line 186: the folder is the literal \<^verbatim>\<open>"./output/orders/"\<close>, the archive
  \<^verbatim>\<open>f"{OUTPUT_DIR}/receipts.zip"\<close>.
\<close>

definition archive_receipts :: "'p env \<Rightarrow> 'p world \<Rightarrow> (error + unit) \<times> 'p world" where
  "archive_receipts E w =
     archive_folder_with_zip E (Path ''./output/orders/'')
       (joinpath (OUTPUT_DIR E) ''receipts.zip'') w"

subsection \<open>The task (lines 22 to 43)\<close>

text \<open>
  The \<^verbatim>\<open>while page.is_visible(".alert-danger"): submit_order(page)\<close> loop of lines 39 and
  40 has no bound, so it is a partial function: \<open>None\<close> is the loop that never ends.
\<close>

partial_function (option) resubmit_loop :: "'p env \<Rightarrow> 'p world \<Rightarrow> ((error + unit) \<times> 'p world) option" where
  "resubmit_loop E w =
     (case is_visible E ''.alert-danger'' w of
        (b, w1) \<Rightarrow>
          if b then
            (case submit_order E w1 of
               (Inl e, w2) \<Rightarrow> Some (Inl e, w2)
             | (Inr u, w2) \<Rightarrow> resubmit_loop E w2)
          else Some (Inr (), w1))"

declare resubmit_loop.simps [code]

text \<open>The body of the \<^verbatim>\<open>for order in orders\<close> loop, lines 36 to 42.\<close>

definition process_order :: "'p env \<Rightarrow> order \<Rightarrow> 'p world \<Rightarrow> ((error + unit) \<times> 'p world) option" where
  "process_order E ord w =
     (case close_annoying_modal E w of
        (Inl e, w1) \<Rightarrow> Some (Inl e, w1)
      | (Inr u, w1) \<Rightarrow>
     (case fill_the_form E ord w1 of
        (Inl e, w2) \<Rightarrow> Some (Inl e, w2)
      | (Inr u, w2) \<Rightarrow>
     (case submit_order E w2 of
        (Inl e, w3) \<Rightarrow> Some (Inl e, w3)
      | (Inr u, w3) \<Rightarrow>
     (case resubmit_loop E w3 of
        None \<Rightarrow> None
      | Some (Inl e, w4) \<Rightarrow> Some (Inl e, w4)
      | Some (Inr u, w4) \<Rightarrow>
     (case store_receipt_as_pdf E (order_number ord) w4 of
        (Inl e, w5) \<Rightarrow> Some (Inl e, w5)
      | (Inr pdf_file, w5) \<Rightarrow> Some (create_new_order E w5))))))"

fun process_orders :: "'p env \<Rightarrow> order list \<Rightarrow> 'p world \<Rightarrow> ((error + unit) \<times> 'p world) option" where
  "process_orders E [] w = Some (Inr (), w)"
| "process_orders E (ord # orders) w =
     (case process_order E ord w of
        None \<Rightarrow> None
      | Some (Inl e, w1) \<Rightarrow> Some (Inl e, w1)
      | Some (Inr u, w1) \<Rightarrow> process_orders E orders w1)"

definition order_robots_from_RobotSpareBin :: "'p env \<Rightarrow> 'p world \<Rightarrow> ((error + unit) \<times> 'p world) option" where
  "order_robots_from_RobotSpareBin E w =
     (case get_orders E w of
        (Inl e, w1) \<Rightarrow> Some (Inl e, w1)
      | (Inr orders, w1) \<Rightarrow>
     (case open_robot_order_website E w1 of
        (Inl e, w2) \<Rightarrow> Some (Inl e, w2)
      | (Inr u, w2) \<Rightarrow>
     (case browser_call E (SetDefaultTimeout 10000) w2 of
        (Inl e, w3) \<Rightarrow> Some (Inl e, w3)
      | (Inr u, w3) \<Rightarrow>
     (case go_to_order_page E w3 of
        (Inl e, w4) \<Rightarrow> Some (Inl e, w4)
      | (Inr u, w4) \<Rightarrow>
     (case process_orders E orders w4 of
        None \<Rightarrow> None
      | Some (Inl e, w5) \<Rightarrow> Some (Inl e, w5)
      | Some (Inr u, w5) \<Rightarrow> Some (archive_receipts E w5))))))"

text \<open>A run of the program: the module is loaded, then the task is called.\<close>

definition run :: "'p env \<Rightarrow> 'p world \<Rightarrow> ((error + unit) \<times> 'p world) option" where
  "run E w = order_robots_from_RobotSpareBin E (module_init E w)"

section \<open>Call sequences\<close>

text \<open>
  Names for two call sequences the claims speak about: what the modal-dismissal step calls
  in a given world, and the four calls that fill the form for an order.
\<close>

abbreviation modal_calls :: "'p env \<Rightarrow> 'p world \<Rightarrow> call list" where
  "modal_calls E w \<equiv>
     (if visible E (page w) ''.modal-header''
      then [IsVisible ''.modal-header'' True, ClickRole ''button'' ''OK'']
      else [IsVisible ''.modal-header'' False])"

abbreviation form_calls :: "order \<Rightarrow> call list" where
  "form_calls ord \<equiv>
     [SelectOption ''select#head.custom-select'' (head ord),
      Click (''#id-body-'' @ body ord),
      Fill ''Enter the part number'' (legs ord),
      Fill ''Shipping address'' (address ord)]"

section \<open>Concrete sites and working directories\<close>

text \<open>
  A site to run the program on.  The program lies in \<open>/work\<close> and is run from there.  The
  server delivers a CSV file with the header line and one order, whose number is the text
  \<open>1\<close>, and the table reader yields that order for that file.  The first click on Order
  shows the error banner and the second is accepted, the modal is never shown, and every
  screenshot writes its file.  The page state counts the clicks on Order since the form was
  last reset.
\<close>

definition order1 :: order where
  "order1 = \<lparr>order_number = ''1'', head = ''1'', body = ''2'', legs = ''3'', address = ''Address 123''\<rparr>"

definition demo_csv :: string where
  "demo_csv = ''Order number,Head,Body,Legs,Address'' @ [CHR 0x0A] @ ''1,1,2,3,Address 123''"

definition demo_site :: "nat env" where
  "demo_site =
     \<lparr>environ = (\<lambda>v. None),
      source_file = ''/work/tasks.py'',
      cwd = ''/work'',
      http_get = (\<lambda>url. Inr (200, demo_csv)),
      read_csv = (\<lambda>d. if d = Bytes demo_csv then Inr [order1] else Inr []),
      respond = (\<lambda>p c. if c = ClickRole ''button'' ''Order'' then Inr (Suc p)
                         else if c = ClickRole ''button'' ''Order another robot'' then Inr 0
                         else Inr p),
      visible = (\<lambda>p sel. sel = ''.alert-danger'' \<and> p = 1),
      shot = (\<lambda>p sel. Some sel)\<rparr>"

text \<open>
  \<open>fresh\<close> is a working directory that holds nothing yet, \<open>loaded E\<close> the same directory
  once the module has been loaded (line 19 has made the orders directory).
\<close>

definition fresh :: "nat world" where
  "fresh = \<lparr>page = 0, files = [], dirs = {}, calls = []\<rparr>"

definition loaded :: "nat env \<Rightarrow> nat world" where
  "loaded E = module_init E fresh"

text \<open>
  The same site with no \<open>#receipt\<close> element on the page: a screenshot of that locator
  waits for the element and raises the driver's timeout error.
\<close>

definition site_without_receipt :: "nat env" where
  "site_without_receipt =
     demo_site\<lparr>respond := (\<lambda>p c. case c of
                    Screenshot sel t \<Rightarrow> if sel = ''#receipt'' then Inl TimeoutError else Inr p
                  | _ \<Rightarrow> respond demo_site p c)\<rparr>"

text \<open>The same site run with \<^verbatim>\<open>ROBOT_ARTIFACTS=artifacts\<close>.\<close>

definition site_artifacts :: "nat env" where
  "site_artifacts =
     demo_site\<lparr>environ := (\<lambda>v. if v = ''ROBOT_ARTIFACTS'' then Some ''artifacts'' else None)\<rparr>"

text \<open>
  A working directory after the orders have been processed with that setting: the new
  receipt under \<open>artifacts/orders\<close>, and a receipt of an earlier run, made with the default
  setting, under \<open>output/orders\<close>.
\<close>

definition after_orders :: "nat world" where
  "after_orders =
     \<lparr>page = 0,
      files = [([''/'', ''work'', ''artifacts'', ''orders'', ''order_1.pdf''], Pdf [Bytes ''new'']),
               ([''/'', ''work'', ''output'', ''orders'', ''order_7.pdf''], Pdf [Bytes ''old''])],
      dirs = {[''/'', ''work'', ''artifacts''], [''/'', ''work'', ''artifacts'', ''orders''],
              [''/'', ''work'', ''output''], [''/'', ''work'', ''output'', ''orders'']},
      calls = []\<rparr>"

text \<open>
  A working directory in which an earlier run, made with the default setting, has left the
  receipt of order 7.
\<close>

definition earlier_run :: "nat world" where
  "earlier_run =
     fresh\<lparr>files := [([''/'', ''work'', ''output'', ''orders'', ''order_7.pdf''], Pdf [Bytes ''old''])],
           dirs := {[''/'', ''work'', ''output''], [''/'', ''work'', ''output'', ''orders'']}\<rparr>"

text \<open>The same site when every submission is rejected: the banner is always visible.\<close>

definition site_always_banner :: "nat env" where
  "site_always_banner = demo_site\<lparr>visible := (\<lambda>p sel. sel = ''.alert-danger'')\<rparr>"


text \<open>The same site when the CSV endpoint answers HTTP 500.\<close>

definition site_http_500 :: "nat env" where
  "site_http_500 = demo_site\<lparr>http_get := (\<lambda>url. Inr (500, ''Internal Server Error''))\<rparr>"

text \<open>The same site run with \<^verbatim>\<open>ROBOT_ARTIFACTS=.\<close> from the directory of tasks.py.\<close>

definition site_root_is_cwd :: "nat env" where
  "site_root_is_cwd =
     demo_site\<lparr>environ := (\<lambda>v. if v = ''ROBOT_ARTIFACTS'' then Some ''.'' else None)\<rparr>"

text \<open>The same site with the default setting when tasks.py lies in \<open>/work/output\<close>.\<close>

definition site_code_in_output :: "nat env" where
  "site_code_in_output = demo_site\<lparr>source_file := ''/work/output/tasks.py''\<rparr>"

text \<open>
  The same site when the screenshot of the receipt returns without having written its
  file.
\<close>

definition site_silent_capture :: "nat env" where
  "site_silent_capture =
     demo_site\<lparr>shot := (\<lambda>p sel. if sel = ''#receipt'' then None else Some sel)\<rparr>"

text \<open>What a run returns together with the files it leaves behind.\<close>

definition result_files ::
  "((error + unit) \<times> 'p world) option \<Rightarrow> ((error + unit) \<times> (path \<times> fdata) list) option" where
  "result_files y = map_option (\<lambda>(r, v). (r, files v)) y"

section \<open>Facts about the library models\<close>

subsection \<open>Paths and locations\<close>

lemma split_slash_no_slash: "CHR ''/'' \<notin> set s \<Longrightarrow> split_slash cur s = [cur @ s]"
  by (induction s arbitrary: cur) auto

lemma split_slash_not_Nil: "split_slash cur s \<noteq> []"
  by (induction s arbitrary: cur) auto

lemma last_split_slash:
  "CHR ''/'' \<notin> set ext \<Longrightarrow> \<exists>t. last (split_slash cur (s @ ext)) = t @ ext"
proof (induction s arbitrary: cur)
  case Nil
  then show ?case by (simp add: split_slash_no_slash)
next
  case (Cons c s)
  then show ?case by (simp add: split_slash_not_Nil)
qed

lemma last_filter_keep: "xs \<noteq> [] \<Longrightarrow> P (last xs) \<Longrightarrow> last (filter P xs) = last xs"
  by (induction xs rule: rev_induct) auto

lemma last_Path:
  assumes "CHR ''/'' \<notin> set ext" and "2 \<le> length ext"
  shows "\<exists>t. Path (s @ ext) \<noteq> [] \<and> last (Path (s @ ext)) = t @ ext"
proof -
  let ?xs = "split_slash [] (s @ ext)"
  let ?P = "\<lambda>c. c \<noteq> [] \<and> c \<noteq> ''.''"
  obtain t where t: "last ?xs = t @ ext" using last_split_slash[OF assms(1)] by blast
  have ne: "?xs \<noteq> []" by (rule split_slash_not_Nil)
  have "length (t @ ext) \<ge> 2" using assms(2) by simp
  moreover have "length ''.'' = 1" "length ([] :: string) = 0" by simp_all
  ultimately have "t @ ext \<noteq> []" "t @ ext \<noteq> ''.''" by fastforce+
  then have P: "?P (last ?xs)" unfolding t by simp
  have "last ?xs \<in> set ?xs" using ne by simp
  with P have fne: "filter ?P ?xs \<noteq> []" by (auto simp: filter_empty_conv)
  have "last (filter ?P ?xs) = last ?xs" using ne P by (rule last_filter_keep)
  with fne t show ?thesis by (auto simp: Path_def)
qed

lemma last_joinpath:
  assumes "CHR ''/'' \<notin> set ext" and "2 \<le> length ext"
  shows "\<exists>t. joinpath p (s @ ext) \<noteq> [] \<and> last (joinpath p (s @ ext)) = t @ ext"
proof -
  obtain t where t: "Path (s @ ext) \<noteq> []" "last (Path (s @ ext)) = t @ ext"
    using last_Path[OF assms] by blast
  have "s @ ext \<noteq> []" using assms(2) by auto
  then obtain c cs where c: "s @ ext = c # cs" by (cases "s @ ext") auto
  have "joinpath p (s @ ext) = Path (s @ ext) \<or> joinpath p (s @ ext) = p @ Path (s @ ext)"
    unfolding joinpath_def c by simp
  with t have "joinpath p (s @ ext) \<noteq> [] \<and> last (joinpath p (s @ ext)) = t @ ext"
    by auto
  then show ?thesis ..
qed

lemma normpath_append: "normpath at (xs @ ys) = normpath (normpath at xs) ys"
  by (induction xs arbitrary: at) auto

lemma normpath_snoc: "c \<noteq> ''..'' \<Longrightarrow> normpath at (xs @ [c]) = normpath at xs @ [c]"
  by (simp add: normpath_append)

lemma loc_snoc: "c \<noteq> ''..'' \<Longrightarrow> c \<noteq> ''/'' \<Longrightarrow> loc E (p @ [c]) = loc E p @ [c]"
proof -
  assume c: "c \<noteq> ''..''" "c \<noteq> ''/''"
  have "is_absolute (p @ [c]) = is_absolute p"
    using c(2) by (cases p) (simp_all add: is_absolute_def)
  then show ?thesis
    using normpath_snoc[OF c(1), of "[]" p] normpath_snoc[OF c(1), of "[]" "Path (cwd E) @ p"]
    by (simp add: loc_def)
qed

lemma loc_last:
  assumes "q \<noteq> []" and "last q \<noteq> ''..''"
  shows "loc E q \<noteq> [] \<and> last (loc E q) = last q"
proof -
  have q: "q = butlast q @ [last q]" using assms(1) by simp
  have "\<exists>xs. (if is_absolute q then q else Path (cwd E) @ q) = xs @ [last q]"
  proof (cases "is_absolute q")
    case True
    with q show ?thesis by auto
  next
    case False
    have "Path (cwd E) @ q = (Path (cwd E) @ butlast q) @ [last q]" using assms(1) by simp
    then have "\<exists>xs. Path (cwd E) @ q = xs @ [last q]" ..
    with False show ?thesis by simp
  qed
  then obtain xs where "loc E q = normpath [] (xs @ [last q])" by (auto simp: loc_def)
  then show ?thesis using normpath_snoc[OF assms(2), of "[]" xs] by simp
qed

lemma loc_pdf_png:
  assumes "p \<noteq> []" and "last p = t @ ''.pdf''" and "q \<noteq> []" and "last q = u @ ''.png''"
  shows "loc E p \<noteq> loc E q"
proof
  assume eq: "loc E p = loc E q"
  have "last p \<noteq> ''..''" "last q \<noteq> ''..''"
    using assms(2,4) by (auto simp: append_eq_Cons_conv)
  then have "last (loc E p) = last p" "last (loc E q) = last q"
    using loc_last assms(1,3) by blast+
  with eq assms(2,4) have "t @ ''.pdf'' = u @ ''.png''" by simp
  then have "last (t @ ''.pdf'') = last (u @ ''.png'')" by simp
  then show False by simp
qed

lemma paths_distinct [simp]:
  "loc E (pdf_path E n) \<noteq> loc E (receipt_path E m)"
  "loc E (pdf_path E n) \<noteq> loc E (robot_path E m)"
  "loc E (receipt_path E m) \<noteq> loc E (pdf_path E n)"
  "loc E (robot_path E m) \<noteq> loc E (pdf_path E n)"
proof -
  have ext: "CHR ''/'' \<notin> set ''.pdf''" "2 \<le> length ''.pdf''"
            "CHR ''/'' \<notin> set ''.png''" "2 \<le> length ''.png''" by simp_all
  obtain t where t: "pdf_path E n \<noteq> []" "last (pdf_path E n) = t @ ''.pdf''"
    using last_joinpath[OF ext(1,2), of "ORDERS_DIR E" "''order_'' @ n"]
    by (auto simp: pdf_path_def)
  obtain u where u: "receipt_path E m \<noteq> []" "last (receipt_path E m) = u @ ''.png''"
    using last_joinpath[OF ext(3,4), of "OUTPUT_DIR E" "''receipt_'' @ m"]
    by (auto simp: receipt_path_def)
  obtain v where v: "robot_path E m \<noteq> []" "last (robot_path E m) = v @ ''.png''"
    using last_joinpath[OF ext(3,4), of "OUTPUT_DIR E" "''robot_'' @ m"]
    by (auto simp: robot_path_def)
  show a: "loc E (pdf_path E n) \<noteq> loc E (receipt_path E m)"
    using loc_pdf_png[OF t u] .
  show b: "loc E (pdf_path E n) \<noteq> loc E (robot_path E m)"
    using loc_pdf_png[OF t v] .
  show "loc E (receipt_path E m) \<noteq> loc E (pdf_path E n)" using a by simp
  show "loc E (robot_path E m) \<noteq> loc E (pdf_path E n)" using b by simp
qed

text \<open>
  An order number without a slash, as every number is, gives file names of one component,
  and then the two screenshots are different files.
\<close>

lemma Path_single: "CHR ''/'' \<notin> set s \<Longrightarrow> s \<noteq> [] \<Longrightarrow> s \<noteq> ''.'' \<Longrightarrow> Path s = [s]"
  by (cases s) (auto simp: Path_def split_slash_no_slash)

lemma joinpath_single:
  "CHR ''/'' \<notin> set s \<Longrightarrow> s \<noteq> [] \<Longrightarrow> s \<noteq> ''.'' \<Longrightarrow> joinpath p s = p @ [s]"
  using Path_single[of s] by (cases s) (auto simp: joinpath_def)

lemma receipt_robot_distinct:
  assumes "CHR ''/'' \<notin> set n"
  shows "loc E (receipt_path E n) \<noteq> loc E (robot_path E n)"
proof -
  have "receipt_path E n = OUTPUT_DIR E @ [''receipt_'' @ n @ ''.png'']"
    unfolding receipt_path_def using assms by (intro joinpath_single) auto
  moreover have "robot_path E n = OUTPUT_DIR E @ [''robot_'' @ n @ ''.png'']"
    unfolding robot_path_def using assms by (intro joinpath_single) auto
  ultimately show ?thesis by (simp add: loc_snoc)
qed

subsection \<open>Effects of single calls\<close>

lemma browser_call_files [simp]: "files (snd (browser_call E c w)) = files w"
  by (simp add: browser_call_def Let_def split: sum.splits)

lemma browser_call_dirs [simp]: "dirs (snd (browser_call E c w)) = dirs w"
  by (simp add: browser_call_def Let_def split: sum.splits)

lemma browser_call_calls [simp]: "calls (snd (browser_call E c w)) = calls w @ [c]"
  by (simp add: browser_call_def Let_def split: sum.splits)

lemma browser_call_page:
  "page (snd (browser_call E c w)) = (case respond E (page w) c of Inl e \<Rightarrow> page w | Inr p \<Rightarrow> p)"
  by (simp add: browser_call_def Let_def split: sum.splits)

lemma browser_call_fst:
  "fst (browser_call E c w) = (case respond E (page w) c of Inl e \<Rightarrow> Inl e | Inr p \<Rightarrow> Inr ())"
  by (simp add: browser_call_def Let_def split: sum.splits)

lemma is_visible_fst [simp]: "fst (is_visible E sel w) = visible E (page w) sel"
  by (simp add: is_visible_def Let_def)

lemma is_visible_snd [simp]:
  "snd (is_visible E sel w) = w\<lparr>calls := calls w @ [IsVisible sel (visible E (page w) sel)]\<rparr>"
  by (simp add: is_visible_def Let_def)

lemma browser_call_effect:
  assumes "browser_call E c w = (r, w')"
  shows "calls w' = calls w @ [c]" and "files w' = files w" and "dirs w' = dirs w"
proof -
  have "w' = snd (browser_call E c w)" using assms by simp
  then show "calls w' = calls w @ [c]" and "files w' = files w" and "dirs w' = dirs w"
    by simp_all
qed

lemma close_annoying_modal_calls:
  "calls (snd (close_annoying_modal E w)) =
     calls w @ (if visible E (page w) ''.modal-header''
                then [IsVisible ''.modal-header'' True, ClickRole ''button'' ''OK'']
                else [IsVisible ''.modal-header'' False])"
  by (simp add: close_annoying_modal_def is_visible_def Let_def)


lemma close_annoying_modal_present:
  "visible E (page w) ''.modal-header'' \<Longrightarrow>
   close_annoying_modal E w =
     browser_call E (ClickRole ''button'' ''OK'')
       (w\<lparr>calls := calls w @ [IsVisible ''.modal-header'' True]\<rparr>)"
  by (simp add: close_annoying_modal_def is_visible_def Let_def)

lemma fill_the_form_calls:
  assumes "fill_the_form E ord w = (r, w')"
  shows "\<exists>cs. calls w' = calls w @ cs \<and>
           prefix cs [SelectOption ''select#head.custom-select'' (head ord),
                      Click (''#id-body-'' @ body ord),
                      Fill ''Enter the part number'' (legs ord),
                      Fill ''Shipping address'' (address ord)] \<and>
           (r = Inr () \<longrightarrow> cs = [SelectOption ''select#head.custom-select'' (head ord),
                      Click (''#id-body-'' @ body ord),
                      Fill ''Enter the part number'' (legs ord),
                      Fill ''Shipping address'' (address ord)])"
proof -
  obtain r1 w1 where s1: "set_head E (head ord) w = (r1, w1)" by fastforce
  then have c1: "calls w1 = calls w @ [SelectOption ''select#head.custom-select'' (head ord)]"
    by (simp add: set_head_def browser_call_effect)
  show ?thesis
  proof (cases r1)
    case (Inl e)
    with s1 assms have "r = Inl e" "w' = w1" by (simp_all add: fill_the_form_def)
    with c1 show ?thesis by simp
  next
    case (Inr u1)
    obtain r2 w2 where s2: "set_body E (body ord) w1 = (r2, w2)" by fastforce
    then have c2: "calls w2 = calls w1 @ [Click (''#id-body-'' @ body ord)]"
      by (simp add: set_body_def browser_call_effect)
    show ?thesis
    proof (cases r2)
      case (Inl e)
      with s1 s2 Inr assms have "r = Inl e" "w' = w2" by (simp_all add: fill_the_form_def)
      with c1 c2 show ?thesis by simp
    next
      case (Inr u2)
      obtain r3 w3 where s3: "set_legs E (legs ord) w2 = (r3, w3)" by fastforce
      then have c3: "calls w3 = calls w2 @ [Fill ''Enter the part number'' (legs ord)]"
        by (simp add: set_legs_def browser_call_effect)
      show ?thesis
      proof (cases r3)
        case (Inl e)
        with s1 s2 s3 \<open>r1 = Inr u1\<close> Inr assms have "r = Inl e" "w' = w3"
          by (simp_all add: fill_the_form_def)
        with c1 c2 c3 show ?thesis by simp
      next
        case (Inr u3)
        with s1 s2 s3 \<open>r1 = Inr u1\<close> \<open>r2 = Inr u2\<close> assms
        have s4: "set_address E (address ord) w3 = (r, w')"
          by (simp add: fill_the_form_def)
        then have c4: "calls w' = calls w3 @ [Fill ''Shipping address'' (address ord)]"
          by (simp add: set_address_def browser_call_effect)
        with c1 c2 c3 show ?thesis by simp
      qed
    qed
  qed
qed

lemma submit_order_effect:
  assumes "submit_order E w = (r, w')"
  shows "calls w' = calls w @ [ClickRole ''button'' ''Order'']" and "files w' = files w"
    and "dirs w' = dirs w"
  using assms by (simp_all add: submit_order_def browser_call_effect)

lemma resubmit_loop_effect:
  assumes "resubmit_loop E w = Some y"
  shows "(\<exists>cs. calls (snd y) = calls w @ cs \<and>
            set cs \<subseteq> {IsVisible ''.alert-danger'' True, IsVisible ''.alert-danger'' False,
                      ClickRole ''button'' ''Order''}) \<and>
         files (snd y) = files w \<and> dirs (snd y) = dirs w"
  using assms
proof (induction rule: resubmit_loop.raw_induct[rotated 1, consumes 1])
  case (1 f E w y)
  let ?w1 = "w\<lparr>calls := calls w @ [IsVisible ''.alert-danger'' (visible E (page w) ''.alert-danger'')]\<rparr>"
  show ?case
  proof (cases "visible E (page w) ''.alert-danger''")
    case False
    with 1(2) have "y = (Inr (), ?w1)" by (simp add: is_visible_def Let_def)
    with False show ?thesis by simp
  next
    case True
    obtain r2 w2 where s: "submit_order E ?w1 = (r2, w2)" by fastforce
    note eff = submit_order_effect[OF s]
    show ?thesis
    proof (cases r2)
      case (Inl e)
      with 1(2) True s have "y = (Inl e, w2)" by (simp add: is_visible_def Let_def)
      with eff True show ?thesis by simp
    next
      case (Inr u)
      with 1(2) True s have "f E w2 = Some y" by (simp add: is_visible_def Let_def)
      from 1(1)[OF this] obtain cs where
        cs: "calls (snd y) = calls w2 @ cs"
            "set cs \<subseteq> {IsVisible ''.alert-danger'' True, IsVisible ''.alert-danger'' False,
                      ClickRole ''button'' ''Order''}"
        and fd: "files (snd y) = files w2" "dirs (snd y) = dirs w2" by blast
      have "calls (snd y) =
              calls w @ (IsVisible ''.alert-danger'' True # ClickRole ''button'' ''Order'' # cs)"
        using cs(1) eff(1) True by simp
      moreover have "set (IsVisible ''.alert-danger'' True # ClickRole ''button'' ''Order'' # cs)
                      \<subseteq> {IsVisible ''.alert-danger'' True, IsVisible ''.alert-danger'' False,
                      ClickRole ''button'' ''Order''}"
        using cs(2) by auto
      ultimately show ?thesis using fd eff by auto
    qed
  qed
qed

lemma map_of_write_file [simp]:
  "map_of (files (write_file E p d w)) = (map_of (files w))(loc E p \<mapsto> d)"
  by (simp add: write_file_def update_conv')

lemma write_file_other [simp]:
  "dirs (write_file E p d w) = dirs w" "calls (write_file E p d w) = calls w"
  "page (write_file E p d w) = page w"
  by (simp_all add: write_file_def)

lemma mkdir_parents_simps [simp]:
  "files (mkdir_parents E p w) = files w" "calls (mkdir_parents E p w) = calls w"
  "page (mkdir_parents E p w) = page w"
  "dirs (mkdir_parents E p w) = dirs w \<union> set (prefixes (loc E p))"
  by (simp_all add: mkdir_parents_def)

lemma file_at_write_file [simp]:
  "file_at E (write_file E p d w) q = (if loc E q = loc E p then Some d else file_at E w q)"
  by (simp add: file_at_def)

lemma file_at_mkdir_parents [simp]: "file_at E (mkdir_parents E p w) q = file_at E w q"
  by (simp add: file_at_def)

lemma screenshot_effect:
  assumes "screenshot E (Locator sel) t w = (r, w')"
  shows "calls w' = calls w @ [Screenshot sel t]"
    and "dirs w \<subseteq> dirs w'"
    and "l \<noteq> loc E t \<Longrightarrow> map_of (files w') l = map_of (files w) l"
    and "r = Inl e \<Longrightarrow> files w' = files w"
    and "r = Inr u \<Longrightarrow> respond E (page w) (Screenshot sel t) = Inr (page w')"
    and "r = Inr u \<Longrightarrow> file_at E w' t =
           (case shot E (page w) sel of None \<Rightarrow> file_at E w t | Some png \<Rightarrow> Some (Bytes png))"
proof -
  obtain r1 w1 where b: "browser_call E (Screenshot sel t) w = (r1, w1)" by fastforce
  note eff = browser_call_effect[OF b]
  have pg: "r1 = Inr u \<Longrightarrow> respond E (page w) (Screenshot sel t) = Inr (page w1)"
    using b by (auto simp: browser_call_def Let_def split: sum.splits)
  have w': "w' = (case r1 of Inl e \<Rightarrow> w1 | Inr u \<Rightarrow>
                   (case shot E (page w) sel of None \<Rightarrow> w1
                    | Some png \<Rightarrow> write_file E t (Bytes png) (mkdir_parents E (parent t) w1)))"
    and r: "r = (case r1 of Inl e \<Rightarrow> Inl e | Inr u \<Rightarrow> Inr ())"
    using assms b by (auto simp: screenshot_def split: sum.splits option.splits)
  show "calls w' = calls w @ [Screenshot sel t]"
    using w' eff by (simp split: sum.splits option.splits)
  show "dirs w \<subseteq> dirs w'"
    using w' eff by (auto split: sum.splits option.splits)
  show "l \<noteq> loc E t \<Longrightarrow> map_of (files w') l = map_of (files w) l"
    using w' eff by (simp split: sum.splits option.splits)
  show "r = Inl e \<Longrightarrow> files w' = files w"
    using w' r eff by (simp split: sum.splits option.splits)
  show "r = Inr u \<Longrightarrow> respond E (page w) (Screenshot sel t) = Inr (page w')"
    using w' r pg by (cases r1) (simp_all split: option.splits)
  show "r = Inr u \<Longrightarrow> file_at E w' t =
           (case shot E (page w) sel of None \<Rightarrow> file_at E w t | Some png \<Rightarrow> Some (Bytes png))"
    using w' r eff by (cases r1) (simp_all add: file_at_def split: option.splits)
qed

lemma capture_cases:
  assumes "capture E n w = (r, w')"
  obtains (receipt_raised) e where
      "screenshot E (Locator ''#receipt'') (receipt_path E n) w = (Inl e, w')" "r = Inl e"
    | (robot_reached) w1 where
      "screenshot E (Locator ''#receipt'') (receipt_path E n) w = (Inr (), w1)"
      "screenshot E (Locator ''#robot-preview-image'') (robot_path E n) w1 = (r, w')"
proof -
  obtain r1 w1 where s1: "screenshot E (Locator ''#receipt'') (receipt_path E n) w = (r1, w1)"
    by fastforce
  show thesis
  proof (cases r1)
    case (Inl e)
    with s1 assms have "r = Inl e" "w' = w1"
      by (simp_all add: capture_def locator_def truthy_def)
    with s1 Inl receipt_raised show thesis by simp
  next
    case (Inr u1)
    with s1 assms
    have "screenshot E (Locator ''#robot-preview-image'') (robot_path E n) w1 = (r, w')"
      by (simp add: capture_def locator_def truthy_def screenshot_robot_def)
    with s1 Inr robot_reached show thesis by simp
  qed
qed

lemma capture_calls:
  assumes "capture E n w = (r, w')"
  shows "\<exists>cs. calls w' = calls w @ cs \<and> cs \<noteq> [] \<and>
           prefix cs [Screenshot ''#receipt'' (receipt_path E n),
                      Screenshot ''#robot-preview-image'' (robot_path E n)] \<and>
           (r = Inr () \<longrightarrow> cs = [Screenshot ''#receipt'' (receipt_path E n),
                      Screenshot ''#robot-preview-image'' (robot_path E n)])"
  using assms
proof (cases rule: capture_cases)
  case (receipt_raised e)
  then show ?thesis using screenshot_effect(1)[OF receipt_raised(1)] by simp
next
  case (robot_reached w1)
  then show ?thesis
    using screenshot_effect(1)[OF robot_reached(1)] screenshot_effect(1)[OF robot_reached(2)]
    by simp
qed

lemma capture_files_other:
  assumes "capture E n w = (r, w')" and "l \<noteq> loc E (receipt_path E n)"
    and "l \<noteq> loc E (robot_path E n)"
  shows "map_of (files w') l = map_of (files w) l"
  using assms(1)
proof (cases rule: capture_cases)
  case (receipt_raised e)
  then show ?thesis using screenshot_effect(3)[OF receipt_raised(1) assms(2)] by simp
next
  case (robot_reached w1)
  then show ?thesis
    using screenshot_effect(3)[OF robot_reached(1) assms(2)]
      screenshot_effect(3)[OF robot_reached(2) assms(3)]
    by simp
qed

lemma store_receipt_cases:
  assumes "store_receipt_as_pdf E n w = (r, w')"
  obtains (capture_raised) e where
      "capture E n (mkdir_parents E (OUTPUT_DIR E) w) = (Inl e, w')" "r = Inl e"
    | (file_missing) "capture E n (mkdir_parents E (OUTPUT_DIR E) w) = (Inr (), w')"
      "\<not> is_file E (receipt_path E n) w'" "r = Inl FileNotFoundError"
    | (robot_missing) "capture E n (mkdir_parents E (OUTPUT_DIR E) w) = (Inr (), w')"
      "is_file E (receipt_path E n) w'" "\<not> is_file E (robot_path E n) w'"
      "r = Inl FileNotFoundError"
    | (dir_missing) "capture E n (mkdir_parents E (OUTPUT_DIR E) w) = (Inr (), w')"
      "is_file E (receipt_path E n) w'" "is_file E (robot_path E n) w'"
      "\<not> dir_at E w' (parent (loc E (pdf_path E n)))" "r = Inl FileNotFoundError"
    | (stored) w2 a b where "capture E n (mkdir_parents E (OUTPUT_DIR E) w) = (Inr (), w2)"
      "file_at E w2 (receipt_path E n) = Some a"
      "file_at E w2 (robot_path E n) = Some b"
      "dir_at E w2 (parent (loc E (pdf_path E n)))"
      "w' = write_file E (pdf_path E n) (Pdf [a, b]) w2" "r = Inr (pdf_path E n)"
proof -
  obtain r2 w2 where c: "capture E n (mkdir_parents E (OUTPUT_DIR E) w) = (r2, w2)" by fastforce
  show thesis
  proof (cases r2)
    case (Inl e)
    with c assms have "r = Inl e" "w' = w2" by (simp_all add: store_receipt_as_pdf_def Let_def)
    with c Inl capture_raised show thesis by simp
  next
    case (Inr u)
    show thesis
    proof (cases "file_at E w2 (receipt_path E n)")
      case None
      with c Inr assms have "r = Inl FileNotFoundError" "w' = w2"
        by (simp_all add: store_receipt_as_pdf_def Let_def is_file_def)
      with c Inr None file_missing show thesis by (simp add: is_file_def)
    next
      case (Some a)
      show thesis
      proof (cases "file_at E w2 (robot_path E n)")
        case None
        with c Inr Some assms have "r = Inl FileNotFoundError" "w' = w2"
          by (simp_all add: store_receipt_as_pdf_def Let_def is_file_def add_files_to_pdf_def)
        with c Inr None Some robot_missing show thesis by (simp add: is_file_def)
      next
        case b: (Some b)
        show thesis
        proof (cases "dir_at E w2 (parent (loc E (pdf_path E n)))")
          case False
          with c Inr Some b assms have "r = Inl FileNotFoundError" "w' = w2"
            by (simp_all add: store_receipt_as_pdf_def Let_def is_file_def add_files_to_pdf_def)
          with c Inr Some b False dir_missing show thesis by (simp add: is_file_def)
        next
          case True
          with c Inr Some b assms
          have "r = Inr (pdf_path E n)" "w' = write_file E (pdf_path E n) (Pdf [a, b]) w2"
            by (simp_all add: store_receipt_as_pdf_def Let_def is_file_def add_files_to_pdf_def)
          with c Inr Some b True stored show thesis by simp
        qed
      qed
    qed
  qed
qed

subsection \<open>Call traces of the task\<close>


lemma process_order_cases:
  assumes "process_order E ord w = Some (r, w')"
  obtains (modal_raised) e where "close_annoying_modal E w = (Inl e, w')" "r = Inl e"
    | (fill_raised) w1 e where "close_annoying_modal E w = (Inr (), w1)"
        "fill_the_form E ord w1 = (Inl e, w')" "r = Inl e"
    | (submit_raised) w1 w2 e where "close_annoying_modal E w = (Inr (), w1)"
        "fill_the_form E ord w1 = (Inr (), w2)" "submit_order E w2 = (Inl e, w')" "r = Inl e"
    | (resubmit_raised) w1 w2 w3 e where "close_annoying_modal E w = (Inr (), w1)"
        "fill_the_form E ord w1 = (Inr (), w2)" "submit_order E w2 = (Inr (), w3)"
        "resubmit_loop E w3 = Some (Inl e, w')" "r = Inl e"
    | (store_raised) w1 w2 w3 w4 e where "close_annoying_modal E w = (Inr (), w1)"
        "fill_the_form E ord w1 = (Inr (), w2)" "submit_order E w2 = (Inr (), w3)"
        "resubmit_loop E w3 = Some (Inr (), w4)"
        "store_receipt_as_pdf E (order_number ord) w4 = (Inl e, w')" "r = Inl e"
    | (stored) w1 w2 w3 w4 w5 pdf_file where "close_annoying_modal E w = (Inr (), w1)"
        "fill_the_form E ord w1 = (Inr (), w2)" "submit_order E w2 = (Inr (), w3)"
        "resubmit_loop E w3 = Some (Inr (), w4)"
        "store_receipt_as_pdf E (order_number ord) w4 = (Inr pdf_file, w5)"
        "create_new_order E w5 = (r, w')"
proof -
  obtain r1 w1 where a: "close_annoying_modal E w = (r1, w1)" by fastforce
  show thesis
  proof (cases r1)
    case (Inl e)
    with a assms modal_raised show thesis by (auto simp: process_order_def)
  next
    case r1: (Inr u1)
    obtain r2 w2 where b: "fill_the_form E ord w1 = (r2, w2)" by fastforce
    show thesis
    proof (cases r2)
      case (Inl e)
      with a r1 b assms fill_raised show thesis by (auto simp: process_order_def)
    next
      case r2: (Inr u2)
      obtain r3 w3 where c: "submit_order E w2 = (r3, w3)" by fastforce
      show thesis
      proof (cases r3)
        case (Inl e)
        with a r1 b r2 c assms submit_raised show thesis by (auto simp: process_order_def)
      next
        case r3: (Inr u3)
        show thesis
        proof (cases "resubmit_loop E w3")
          case None
          with a r1 b r2 c r3 assms show thesis by (auto simp: process_order_def)
        next
          case (Some y)
          obtain r4 w4 where y: "y = (r4, w4)" by fastforce
          show thesis
          proof (cases r4)
            case (Inl e)
            with a r1 b r2 c r3 Some y assms resubmit_raised show thesis
              by (auto simp: process_order_def)
          next
            case r4: (Inr u4)
            obtain r5 w5 where d: "store_receipt_as_pdf E (order_number ord) w4 = (r5, w5)"
              by fastforce
            show thesis
            proof (cases r5)
              case (Inl e)
              with a r1 b r2 c r3 Some y r4 d assms store_raised show thesis
                by (auto simp: process_order_def)
            next
              case (Inr pdf_file)
              with a r1 b r2 c r3 Some y r4 d assms stored show thesis
                by (auto simp: process_order_def)
            qed
          qed
        qed
      qed
    qed
  qed
qed

lemma close_annoying_modal_effect:
  assumes "close_annoying_modal E w = (r, w')"
  shows "calls w' = calls w @ modal_calls E w" and "files w' = files w" and "dirs w' = dirs w"
proof -
  have w': "w' = snd (close_annoying_modal E w)" using assms by simp
  show "calls w' = calls w @ modal_calls E w"
    unfolding w' by (rule close_annoying_modal_calls)
  show "files w' = files w" and "dirs w' = dirs w"
    unfolding w' by (simp_all add: close_annoying_modal_def is_visible_def Let_def)
qed




subsection \<open>The resubmission loop\<close>

lemma resubmit_loop_visible:
  assumes "visible E (page w) ''.alert-danger''"
  shows "resubmit_loop E w =
     (case submit_order E (w\<lparr>calls := calls w @ [IsVisible ''.alert-danger'' True]\<rparr>) of
        (Inl e, w2) \<Rightarrow> Some (Inl e, w2)
      | (Inr u, w2) \<Rightarrow> resubmit_loop E w2)"
  using assms by (subst resubmit_loop.simps) (simp add: is_visible_def Let_def)

lemma resubmit_loop_hidden:
  assumes "\<not> visible E (page w) ''.alert-danger''"
  shows "resubmit_loop E w =
     Some (Inr (), w\<lparr>calls := calls w @ [IsVisible ''.alert-danger'' False]\<rparr>)"
  using assms by (subst resubmit_loop.simps) (simp add: is_visible_def Let_def)

lemma submit_order_page:
  assumes "submit_order E w = (Inr u, w')"
  shows "respond E (page w) (ClickRole ''button'' ''Order'') = Inr (page w')"
  using assms by (auto simp: submit_order_def browser_call_def Let_def split: sum.splits)

lemma submit_order_succeeds:
  assumes "respond E (page w) (ClickRole ''button'' ''Order'') = Inr p'"
  shows "submit_order E w = (Inr (), w\<lparr>calls := calls w @ [ClickRole ''button'' ''Order''], page := p'\<rparr>)"
  using assms by (simp add: submit_order_def browser_call_def Let_def)

lemma resubmit_loop_never_accepts:
  "resubmit_loop E w = Some y \<Longrightarrow> I (page w) \<Longrightarrow> visible E (page w) ''.alert-danger''
     \<Longrightarrow> \<forall>p p'. I p \<longrightarrow> respond E p (ClickRole ''button'' ''Order'') = Inr p'
            \<longrightarrow> I p' \<and> visible E p' ''.alert-danger''
     \<Longrightarrow> \<exists>e. fst y = Inl e"
proof (induction rule: resubmit_loop.raw_induct[rotated 1, consumes 1])
  case (1 f E w y)
  let ?w1 = "w\<lparr>calls := calls w @ [IsVisible ''.alert-danger'' True]\<rparr>"
  obtain r2 w2 where s: "submit_order E ?w1 = (r2, w2)" by fastforce
  show ?case
  proof (cases r2)
    case (Inl e)
    with 1(2) 1(4) s have "y = (Inl e, w2)" by (simp add: is_visible_def Let_def)
    then show ?thesis by simp
  next
    case (Inr u)
    with 1(2) 1(4) s have f: "f E w2 = Some y" by (simp add: is_visible_def Let_def)
    from s Inr have "respond E (page ?w1) (ClickRole ''button'' ''Order'') = Inr (page w2)"
      using submit_order_page by blast
    then have "respond E (page w) (ClickRole ''button'' ''Order'') = Inr (page w2)" by simp
    with 1(3) 1(5) have "I (page w2)" "visible E (page w2) ''.alert-danger''"
      by blast+
    from 1(1)[OF f this 1(5)] show ?thesis .
  qed
qed

lemma resubmit_loop_never_returns:
  "resubmit_loop E w = Some y \<Longrightarrow> I (page w) \<Longrightarrow> visible E (page w) ''.alert-danger''
     \<Longrightarrow> \<forall>p p'. I p \<longrightarrow> respond E p (ClickRole ''button'' ''Order'') = Inr p'
            \<longrightarrow> I p' \<and> visible E p' ''.alert-danger''
     \<Longrightarrow> \<forall>p. I p \<longrightarrow> (\<exists>p'. respond E p (ClickRole ''button'' ''Order'') = Inr p')
     \<Longrightarrow> False"
proof (induction rule: resubmit_loop.raw_induct[rotated 1, consumes 1])
  case (1 f E w y)
  let ?w1 = "w\<lparr>calls := calls w @ [IsVisible ''.alert-danger'' True]\<rparr>"
  from 1(6) 1(3) obtain p' where
    p': "respond E (page w) (ClickRole ''button'' ''Order'') = Inr p'" by blast
  let ?w2 = "?w1\<lparr>calls := calls ?w1 @ [ClickRole ''button'' ''Order''], page := p'\<rparr>"
  have s: "submit_order E ?w1 = (Inr (), ?w2)"
    using p' by (intro submit_order_succeeds) simp
  with 1(2) 1(4) have f: "f E ?w2 = Some y" by (simp add: is_visible_def Let_def)
  from 1(5) 1(3) p' have "I (page ?w2)" "visible E (page ?w2) ''.alert-danger''"
    by simp_all
  from 1(1)[OF f this 1(5) 1(6)] show ?case .
qed

lemma resubmit_loop_diverges:
  assumes "\<forall>p p'. I p \<longrightarrow> respond E p (ClickRole ''button'' ''Order'') = Inr p'
            \<longrightarrow> I p' \<and> visible E p' ''.alert-danger''"
    and "\<forall>p. I p \<longrightarrow> (\<exists>p'. respond E p (ClickRole ''button'' ''Order'') = Inr p')"
    and "I (page w)" and "visible E (page w) ''.alert-danger''"
  shows "resubmit_loop E w = None"
proof (cases "resubmit_loop E w")
  case (Some y)
  from resubmit_loop_never_returns[OF Some assms(3) assms(4) assms(1) assms(2)]
  show ?thesis by simp
qed simp

lemma no_screenshot_simps [simp]:
  "Screenshot sel t \<notin> set (modal_calls E w)"
  "Screenshot sel t \<notin> set (form_calls ord)"
  by simp_all

lemma process_order_banner_always:
  assumes banner: "\<forall>p p'. I p \<longrightarrow> respond E p (ClickRole ''button'' ''Order'') = Inr p'
            \<longrightarrow> I p' \<and> visible E p' ''.alert-danger''"
    and start: "\<forall>w1 w2. close_annoying_modal E w = (Inr (), w1) \<longrightarrow>
            fill_the_form E ord w1 = (Inr (), w2) \<longrightarrow> I (page w2)"
    and po: "process_order E ord w = Some (r, w')"
  shows "(\<exists>e. r = Inl e) \<and> (\<forall>sel t. Screenshot sel t \<notin> set (drop (length (calls w)) (calls w')))"
  using po
proof (cases rule: process_order_cases)
  case (modal_raised e)
  from close_annoying_modal_effect(1)[OF modal_raised(1)] modal_raised(2)
  show ?thesis by simp
next
  case (fill_raised w1 e)
  from fill_the_form_calls[OF fill_raised(2)] obtain cs where
    cs: "calls w' = calls w1 @ cs" "prefix cs (form_calls ord)" by blast
  then have "set cs \<subseteq> set (form_calls ord)" by (rule_tac set_mono_prefix)
  then have "\<forall>sel t. Screenshot sel t \<notin> set cs" by auto
  with cs close_annoying_modal_effect(1)[OF fill_raised(1)] fill_raised(3)
  show ?thesis by simp
next
  case (submit_raised w1 w2 e)
  from fill_the_form_calls[OF submit_raised(2)]
  have "calls w2 = calls w1 @ form_calls ord" by auto
  with close_annoying_modal_effect(1)[OF submit_raised(1)]
    submit_order_effect(1)[OF submit_raised(3)] submit_raised(4)
  show ?thesis by simp
next
  case (resubmit_raised w1 w2 w3 e)
  from fill_the_form_calls[OF resubmit_raised(2)]
  have "calls w2 = calls w1 @ form_calls ord" by auto
  moreover from resubmit_loop_effect[OF resubmit_raised(4)] obtain cs where
    "calls w' = calls w3 @ cs"
    "set cs \<subseteq> {IsVisible ''.alert-danger'' True, IsVisible ''.alert-danger'' False,
                      ClickRole ''button'' ''Order''}" by auto
  moreover then have "\<forall>sel t. Screenshot sel t \<notin> set cs" by auto
  ultimately show ?thesis
    using close_annoying_modal_effect(1)[OF resubmit_raised(1)]
      submit_order_effect(1)[OF resubmit_raised(3)] resubmit_raised(5) by simp
next
  case (store_raised w1 w2 w3 w4 e)
  from start store_raised(1,2) have "I (page w2)" by blast
  with banner submit_order_page[OF store_raised(3)]
  have "I (page w3)" "visible E (page w3) ''.alert-danger''" by blast+
  from resubmit_loop_never_accepts[OF store_raised(4) this banner] show ?thesis by simp
next
  case (stored w1 w2 w3 w4 w5 pdf_file)
  from start stored(1,2) have "I (page w2)" by blast
  with banner submit_order_page[OF stored(3)]
  have "I (page w3)" "visible E (page w3) ''.alert-danger''" by blast+
  from resubmit_loop_never_accepts[OF stored(4) this banner] show ?thesis by simp
qed

lemma process_order_diverges:
  assumes banner: "\<forall>p p'. I p \<longrightarrow> respond E p (ClickRole ''button'' ''Order'') = Inr p'
            \<longrightarrow> I p' \<and> visible E p' ''.alert-danger''"
    and clicks: "\<forall>p. I p \<longrightarrow> (\<exists>p'. respond E p (ClickRole ''button'' ''Order'') = Inr p')"
    and modal: "close_annoying_modal E w = (Inr (), w1)"
    and fill: "fill_the_form E ord w1 = (Inr (), w2)"
    and start: "I (page w2)"
  shows "process_order E ord w = None"
proof -
  from clicks start obtain p' where
    p': "respond E (page w2) (ClickRole ''button'' ''Order'') = Inr p'" by blast
  let ?w3 = "w2\<lparr>calls := calls w2 @ [ClickRole ''button'' ''Order''], page := p'\<rparr>"
  have s: "submit_order E w2 = (Inr (), ?w3)" using p' by (rule submit_order_succeeds)
  from banner start p' have "I (page ?w3)" "visible E (page ?w3) ''.alert-danger''" by simp_all
  from resubmit_loop_diverges[OF banner clicks this] have "resubmit_loop E ?w3 = None" .
  with modal fill s show ?thesis by (simp add: process_order_def)
qed

subsection \<open>The download\<close>

lemma download_file_failure:
  assumes "http_get E url = Inr (status, content)" and "400 \<le> status" and "status < 600"
  shows "download_file E url d name w = (Inl (HTTPError status), w\<lparr>calls := calls w @ [HttpGet url]\<rparr>)"
  using assms by (simp add: download_file_def Let_def)

lemma download_file_files:
  assumes "download_file E url d name w = (r, w')"
  shows "(\<exists>e. r = Inl e \<and> files w' = files w) \<or>
         (\<exists>status content. http_get E url = Inr (status, content) \<and>
            \<not> (400 \<le> status \<and> status < 600) \<and> r = Inr (joinpath d name) \<and>
            files w' = AList.update (loc E (joinpath d name)) (Bytes content) (files w))"
proof (cases "http_get E url")
  case (Inl e)
  with assms show ?thesis by (auto simp: download_file_def Let_def)
next
  case (Inr sc)
  obtain status content where sc: "sc = (status, content)" by fastforce
  show ?thesis
  proof (cases "400 \<le> status \<and> status < 600")
    case True
    with Inr sc assms show ?thesis by (auto simp: download_file_def Let_def)
  next
    case False
    obtain r1 w1 where m: "mkdir_exist_ok E d (w\<lparr>calls := calls w @ [HttpGet url]\<rparr>) = (r1, w1)"
      by fastforce
    then have f1: "files w1 = files w"
      by (auto simp: mkdir_exist_ok_def split: if_splits)
    show ?thesis
    proof (cases r1)
      case (Inl e)
      with Inr sc False m assms have "r = Inl e" "w' = w1"
        by (auto simp: download_file_def Let_def)
      with f1 show ?thesis by simp
    next
      case r1: (Inr u)
      with Inr sc False m assms have "r = Inr (joinpath d name)"
        "w' = write_file E (joinpath d name) (Bytes content) w1"
        by (auto simp: download_file_def Let_def)
      with f1 Inr sc False show ?thesis by (auto simp: write_file_def)
    qed
  qed
qed

lemma get_orders_files:
  assumes "get_orders E w = (r, w')"
  shows "files w' = files w \<or>
         (\<exists>status content. http_get E CSV_URL = Inr (status, content) \<and>
            \<not> (400 \<le> status \<and> status < 600) \<and>
            files w' =
              AList.update (loc E (joinpath (CURDIR E) FILE_NAME)) (Bytes content) (files w))"
proof -
  obtain r1 w1 where d: "download_file E CSV_URL (CURDIR E) FILE_NAME w = (r1, w1)"
    by fastforce
  have "w' = w1"
    using assms d
    by (cases r1) (auto simp: get_orders_def read_table_from_csv_def split: option.splits)
  with download_file_files[OF d] show ?thesis by auto
qed

subsection \<open>Files written by the receipt step\<close>

lemma capture_images:
  assumes "capture E n w = (Inr (), w')"
  shows "\<exists>p1. respond E (page w) (Screenshot ''#receipt'' (receipt_path E n)) = Inr p1 \<and>
           (loc E (receipt_path E n) \<noteq> loc E (robot_path E n) \<longrightarrow>
            (\<forall>png. shot E (page w) ''#receipt'' = Some png \<longrightarrow>
               file_at E w' (receipt_path E n) = Some (Bytes png))) \<and>
           (\<forall>png. shot E p1 ''#robot-preview-image'' = Some png \<longrightarrow>
               file_at E w' (robot_path E n) = Some (Bytes png))"
  using assms
proof (cases rule: capture_cases)
  case (robot_reached w1)
  note e1 = screenshot_effect[OF robot_reached(1)]
  note e2 = screenshot_effect[OF robot_reached(2)]
  have p1: "respond E (page w) (Screenshot ''#receipt'' (receipt_path E n)) = Inr (page w1)"
    by (rule e1(5)) simp
  have a: "loc E (receipt_path E n) \<noteq> loc E (robot_path E n) \<Longrightarrow>
           file_at E w' (receipt_path E n) = file_at E w1 (receipt_path E n)"
    unfolding file_at_def by (rule e2(3))
  have a1: "file_at E w1 (receipt_path E n) =
             (case shot E (page w) ''#receipt'' of
                None \<Rightarrow> file_at E w (receipt_path E n) | Some png \<Rightarrow> Some (Bytes png))"
    by (rule e1(6)) simp
  have b: "file_at E w' (robot_path E n) =
             (case shot E (page w1) ''#robot-preview-image'' of
                None \<Rightarrow> file_at E w1 (robot_path E n) | Some png \<Rightarrow> Some (Bytes png))"
    by (rule e2(6)) simp
  from p1 a a1 b show ?thesis by (simp split: option.splits)
qed simp

section \<open>Evaluating the program on concrete inputs\<close>

lemmas prog_defs = run_def module_init_def order_robots_from_RobotSpareBin_def get_orders_def
  download_file_def read_table_from_csv_def open_robot_order_website_def go_to_order_page_def
  process_order_def close_annoying_modal_def fill_the_form_def set_head_def set_body_def
  set_legs_def set_address_def submit_order_def store_receipt_as_pdf_def capture_def
  screenshot_robot_def create_new_order_def archive_receipts_def
  pdf_path_def receipt_path_def robot_path_def
  OUTPUT_DIR_def CURDIR_def ORDERS_DIR_def FILE_NAME_def CSV_URL_def

lemmas lib_defs = browser_call_def is_visible_def screenshot_def locator_def truthy_def
  add_files_to_pdf_def archive_folder_with_zip_def files_under_def write_file_def
  mkdir_parents_def mkdir_exist_ok_def is_file_def is_dir_def dir_at_def file_at_def
  loc_def is_absolute_def Path_def joinpath_def parent_def

lemmas site_defs = demo_site_def demo_csv_def order1_def fresh_def loaded_def

section \<open>The claims\<close>

subsection \<open>C1: a missing receipt element\<close>

text \<open>
  Claim C1 says that \<open>store_receipt_as_pdf\<close> fails with \<open>ValueError\<close> whenever the
  \<open>#receipt\<close> element cannot be located, and that this error branch is reached exactly
  then.  The code tests the truth value of the locator object, which is always true, so
  the \<open>else\<close> branch of lines 78 and 79 is never taken: \<open>capture\<close> is the two screenshots
  and nothing else.  On a page without the element the function raises the timeout error
  of the first screenshot, after having made that one call, and writes no file.
\<close>

theorem store_receipt_without_element:
  "store_receipt_as_pdf site_without_receipt ''1'' (loaded site_without_receipt) =
     (Inl TimeoutError,
      (loaded site_without_receipt)
        \<lparr>calls := [Screenshot ''#receipt'' [''output'', ''receipt_1.png'']]\<rparr>)
   \<and> files (loaded site_without_receipt) = []
   \<and> capture E n w =
       (case screenshot E (Locator ''#receipt'') (receipt_path E n) w of
          (Inl e, w1) \<Rightarrow> (Inl e, w1)
        | (Inr u, w1) \<Rightarrow> screenshot_robot E (robot_path E n) w1)"
proof (intro conjI)
  show "store_receipt_as_pdf site_without_receipt ''1'' (loaded site_without_receipt) =
     (Inl TimeoutError,
      (loaded site_without_receipt)
        \<lparr>calls := [Screenshot ''#receipt'' [''output'', ''receipt_1.png'']]\<rparr>)"
    apply (simp add: prog_defs lib_defs site_without_receipt_def site_defs Let_def)
    apply blast
    done
  show "files (loaded site_without_receipt) = []"
    by (simp add: prog_defs lib_defs site_defs)
  show "capture E n w =
       (case screenshot E (Locator ''#receipt'') (receipt_path E n) w of
          (Inl e, w1) \<Rightarrow> (Inl e, w1)
        | (Inr u, w1) \<Rightarrow> screenshot_robot E (robot_path E n) w1)"
    by (simp add: capture_def locator_def truthy_def)
qed

subsection \<open>C2: what the archive step compresses\<close>

text \<open>
  Claim C2 says that for every value of the output-root variable the archive step
  compresses the \<open>orders\<close> subdirectory of the configured output root into
  \<open>receipts.zip\<close> under that root.  The code archives the literal folder
  \<open>./output/orders/\<close> instead.  With \<^verbatim>\<open>ROBOT_ARTIFACTS=artifacts\<close> the receipts are written
  under \<open>artifacts/orders\<close>; the archive \<open>artifacts/receipts.zip\<close> then holds whatever an
  earlier run left under \<open>output/orders\<close> and not the new receipt, and in an empty working
  directory the whole run ends with the archiver's \<open>ValueError\<close> (no file to archive).
\<close>

theorem archive_receipts_ignores_output_root:
  "ORDERS_DIR site_artifacts = [''artifacts'', ''orders'']
   \<and> archive_receipts site_artifacts after_orders =
       (Inr (), write_file site_artifacts [''artifacts'', ''receipts.zip'']
                  (Zip [([''order_7.pdf''], Pdf [Bytes ''old''])]) after_orders)
   \<and> result_files (run site_artifacts fresh) =
       Some (Inl ValueError,
         [([''/'', ''work'', ''orders.csv''], Bytes demo_csv),
          ([''/'', ''work'', ''artifacts'', ''receipt_1.png''], Bytes ''#receipt''),
          ([''/'', ''work'', ''artifacts'', ''robot_1.png''], Bytes ''#robot-preview-image''),
          ([''/'', ''work'', ''artifacts'', ''orders'', ''order_1.pdf''],
           Pdf [Bytes ''#receipt'', Bytes ''#robot-preview-image''])])"
proof (intro conjI)
  show "ORDERS_DIR site_artifacts = [''artifacts'', ''orders'']"
    by (simp add: ORDERS_DIR_def OUTPUT_DIR_def Path_def joinpath_def site_artifacts_def
        demo_site_def)
  show "archive_receipts site_artifacts after_orders =
       (Inr (), write_file site_artifacts [''artifacts'', ''receipts.zip'']
                  (Zip [([''order_7.pdf''], Pdf [Bytes ''old''])]) after_orders)"
    by (simp add: prog_defs lib_defs site_artifacts_def demo_site_def after_orders_def Let_def)
  show "result_files (run site_artifacts fresh) =
       Some (Inl ValueError,
         [([''/'', ''work'', ''orders.csv''], Bytes demo_csv),
          ([''/'', ''work'', ''artifacts'', ''receipt_1.png''], Bytes ''#receipt''),
          ([''/'', ''work'', ''artifacts'', ''robot_1.png''], Bytes ''#robot-preview-image''),
          ([''/'', ''work'', ''artifacts'', ''orders'', ''order_1.pdf''],
           Pdf [Bytes ''#receipt'', Bytes ''#robot-preview-image''])])"
    by (simp add: result_files_def prog_defs lib_defs site_artifacts_def site_defs
        Let_def resubmit_loop.simps)
qed

subsection \<open>C3: the resubmission loop has no bound\<close>

text \<open>
  Claim C3: while the error banner is visible after a submission the pipeline clicks
  submit again and does not go on to receipt capture; the loop has no bound on the
  attempts, so an order whose submission always shows the banner is retried forever and
  receipt capture is never reached.

  \<open>I\<close> is any set of page states that submissions do not leave and in which every
  submission that goes through shows the banner; the order is submitted from a page in
  \<open>I\<close>.  Then: (1) whenever the banner is visible, the loop is one more click on submit
  followed by the loop again; (2) if the processing of the order returns at all, it
  returns an exception and has made no screenshot call; (3) if moreover no click on
  submit raises, the processing of the order, and with it the loop over the orders, never
  returns.
\<close>

theorem resubmit_loop_has_no_bound:
  fixes E :: "'p env"
  assumes banner: "\<forall>p p'. I p \<longrightarrow> respond E p (ClickRole ''button'' ''Order'') = Inr p'
            \<longrightarrow> I p' \<and> visible E p' ''.alert-danger''"
    and start: "\<forall>w1 w2. close_annoying_modal E w = (Inr (), w1) \<longrightarrow>
            fill_the_form E ord w1 = (Inr (), w2) \<longrightarrow> I (page w2)"
  shows "(\<forall>v. visible E (page v) ''.alert-danger'' \<longrightarrow>
            resubmit_loop E v =
              (case submit_order E (v\<lparr>calls := calls v @ [IsVisible ''.alert-danger'' True]\<rparr>) of
                 (Inl e, v2) \<Rightarrow> Some (Inl e, v2)
               | (Inr u, v2) \<Rightarrow> resubmit_loop E v2))
       \<and> (\<forall>r w'. process_order E ord w = Some (r, w') \<longrightarrow>
            (\<exists>e. r = Inl e) \<and>
            (\<forall>sel t. Screenshot sel t \<notin> set (drop (length (calls w)) (calls w'))))
       \<and> ((\<forall>p. I p \<longrightarrow> (\<exists>p'. respond E p (ClickRole ''button'' ''Order'') = Inr p')) \<longrightarrow>
            (\<forall>w1 w2. close_annoying_modal E w = (Inr (), w1) \<longrightarrow>
               fill_the_form E ord w1 = (Inr (), w2) \<longrightarrow>
               process_order E ord w = None \<and>
               (\<forall>orders. process_orders E (ord # orders) w = None)))"
proof (intro conjI allI impI)
  fix v :: "'p world" assume "visible E (page v) ''.alert-danger''"
  then show "resubmit_loop E v =
              (case submit_order E (v\<lparr>calls := calls v @ [IsVisible ''.alert-danger'' True]\<rparr>) of
                 (Inl e, v2) \<Rightarrow> Some (Inl e, v2)
               | (Inr u, v2) \<Rightarrow> resubmit_loop E v2)"
    by (rule resubmit_loop_visible)
next
  fix r w' assume "process_order E ord w = Some (r, w')"
  from process_order_banner_always[OF banner start this]
  show "\<exists>e. r = Inl e" by simp
next
  fix r w' sel t assume "process_order E ord w = Some (r, w')"
  from process_order_banner_always[OF banner start this]
  show "Screenshot sel t \<notin> set (drop (length (calls w)) (calls w'))" by simp
next
  fix w1 w2
  assume clicks: "\<forall>p. I p \<longrightarrow> (\<exists>p'. respond E p (ClickRole ''button'' ''Order'') = Inr p')"
    and m: "close_annoying_modal E w = (Inr (), w1)"
    and f: "fill_the_form E ord w1 = (Inr (), w2)"
  from start m f have "I (page w2)" by blast
  from process_order_diverges[OF banner clicks m f this]
  show "process_order E ord w = None" .
next
  fix w1 w2 orders
  assume clicks: "\<forall>p. I p \<longrightarrow> (\<exists>p'. respond E p (ClickRole ''button'' ''Order'') = Inr p')"
    and m: "close_annoying_modal E w = (Inr (), w1)"
    and f: "fill_the_form E ord w1 = (Inr (), w2)"
  from start m f have "I (page w2)" by blast
  from process_order_diverges[OF banner clicks m f this]
  show "process_orders E (ord # orders) w = None" by simp
qed

text \<open>Witness for C3: the site that always shows the banner, started in an empty directory.\<close>

theorem resubmit_loop_has_no_bound_witness:
  "(\<exists>w1 w2. close_annoying_modal site_always_banner fresh = (Inr (), w1) \<and>
       fill_the_form site_always_banner order1 w1 = (Inr (), w2))
   \<and> visible site_always_banner (page fresh) ''.alert-danger''
   \<and> process_order site_always_banner order1 fresh = None
   \<and> process_orders site_always_banner [order1] fresh = None"
proof -
  have banner: "\<forall>p p'. (\<lambda>p. True) p \<longrightarrow>
      respond site_always_banner p (ClickRole ''button'' ''Order'') = Inr p'
            \<longrightarrow> (\<lambda>p. True) p' \<and> visible site_always_banner p' ''.alert-danger''"
    by (simp add: site_always_banner_def)
  have start: "\<forall>w1 w2. close_annoying_modal site_always_banner fresh = (Inr (), w1) \<longrightarrow>
            fill_the_form site_always_banner order1 w1 = (Inr (), w2) \<longrightarrow> (\<lambda>p. True) (page w2)"
    by simp
  have clicks: "\<forall>p. (\<lambda>p. True) p \<longrightarrow>
      (\<exists>p'. respond site_always_banner p (ClickRole ''button'' ''Order'') = Inr p')"
    by (simp add: site_always_banner_def demo_site_def)
  have m: "close_annoying_modal site_always_banner fresh =
             (Inr (), fresh\<lparr>calls := [IsVisible ''.modal-header'' False]\<rparr>)"
    by (simp add: prog_defs lib_defs site_always_banner_def demo_site_def fresh_def Let_def)
  have f: "\<exists>w2. fill_the_form site_always_banner order1
             (fresh\<lparr>calls := [IsVisible ''.modal-header'' False]\<rparr>) = (Inr (), w2)"
    by (simp add: prog_defs lib_defs site_always_banner_def demo_site_def fresh_def order1_def
        Let_def)
  have v: "visible site_always_banner (page fresh) ''.alert-danger''"
    by (simp add: site_always_banner_def)
  from resubmit_loop_has_no_bound[OF banner start] clicks m f v
  show ?thesis by blast
qed

subsection \<open>C8: dismissing the modal\<close>



subsection \<open>C9: the form is filled in a fixed order, then submitted\<close>



subsection \<open>C4: a failed download\<close>

text \<open>
  Claim C4: if the status of the CSV download indicates failure (HTTP 500, say), the
  error is raised at once and propagated with no retry, no local CSV file is written, the
  pipeline aborts before any browser interaction, and no contents are created in the
  output directory.

  As stated the last part fails: line 19 creates the output root and its \<open>orders\<close>
  subdirectory when the module is loaded, before the task and its download start, so after
  a failed run in an empty working directory \<open>output/orders\<close> exists.
\<close>

theorem download_failure_creates_orders_dir:
  "map_option fst (run site_http_500 fresh) = Some (Inl (HTTPError 500))
   \<and> \<not> is_dir site_http_500 [''output'', ''orders''] fresh
   \<and> map_option (is_dir site_http_500 [''output'', ''orders''] \<circ> snd) (run site_http_500 fresh)
       = Some True
   \<and> OUTPUT_DIR site_http_500 = [''output'']"
  by (simp add: prog_defs lib_defs site_http_500_def site_defs Let_def)

text \<open>
  C4 as amended: with a failure status (400 to 599) the task returns the HTTP error and
  changes nothing but the record of its calls, which holds the one GET: no retry, no
  browser call, no file.  Over the whole run the only other change is the directories
  that loading the module creates.
\<close>

theorem download_failure_aborts:
  fixes E :: "'p env"
  assumes "http_get E CSV_URL = Inr (status, content)" and "400 \<le> status" and "status < 600"
  shows "order_robots_from_RobotSpareBin E w =
           Some (Inl (HTTPError status), w\<lparr>calls := calls w @ [HttpGet CSV_URL]\<rparr>)
       \<and> run E w =
           Some (Inl (HTTPError status),
                 w\<lparr>dirs := dirs w \<union> set (prefixes (loc E (ORDERS_DIR E))),
                   calls := calls w @ [HttpGet CSV_URL]\<rparr>)"
proof -
  have g: "\<And>v. get_orders E v = (Inl (HTTPError status), v\<lparr>calls := calls v @ [HttpGet CSV_URL]\<rparr>)"
    using download_file_failure[OF assms] by (simp add: get_orders_def)
  have 1: "\<And>v. order_robots_from_RobotSpareBin E v =
           Some (Inl (HTTPError status), v\<lparr>calls := calls v @ [HttpGet CSV_URL]\<rparr>)"
    by (simp add: order_robots_from_RobotSpareBin_def g)
  show ?thesis
    by (simp add: 1 run_def module_init_def mkdir_parents_def)
qed

text \<open>Witness for C4: the CSV endpoint answers 500, in an empty working directory.\<close>

theorem download_failure_aborts_witness:
  "http_get site_http_500 CSV_URL = Inr (500, ''Internal Server Error'')
   \<and> run site_http_500 fresh =
       Some (Inl (HTTPError 500),
             fresh\<lparr>dirs := dirs fresh \<union> set (prefixes (loc site_http_500 (ORDERS_DIR site_http_500))),
                   calls := calls fresh @ [HttpGet CSV_URL]\<rparr>)"
proof -
  have h: "http_get site_http_500 CSV_URL = Inr (500, ''Internal Server Error'')"
    by (simp add: site_http_500_def)
  from download_failure_aborts[OF h, of fresh] h show ?thesis by simp
qed

subsection \<open>C10: where the CSV file goes\<close>

text \<open>
  Claim C10: for every run \<open>get_orders\<close> writes \<open>orders.csv\<close> into the directory of the
  source file and not under the configurable output root; the download writes no file into
  the output directory tree.

  The target is computed from the location of the source file alone, so the claim fails
  whenever the code directory lies inside the output root.  With \<^verbatim>\<open>ROBOT_ARTIFACTS=.\<close> and
  the program run from its own directory, the output root is the working directory and
  \<open>orders.csv\<close> is written in it.  With the default setting and tasks.py in
  \<open>/work/output\<close>, run from \<open>/work\<close>, the file is written to \<open>output/orders.csv\<close>.
\<close>

theorem get_orders_csv_under_output_root:
  "OUTPUT_DIR site_root_is_cwd = []
   \<and> prefix (loc site_root_is_cwd (OUTPUT_DIR site_root_is_cwd))
        (loc site_root_is_cwd [''orders.csv''])
   \<and> \<not> is_file site_root_is_cwd [''orders.csv''] (loaded site_root_is_cwd)
   \<and> is_file site_root_is_cwd [''orders.csv'']
        (snd (get_orders site_root_is_cwd (loaded site_root_is_cwd)))
   \<and> OUTPUT_DIR site_code_in_output = [''output'']
   \<and> \<not> is_file site_code_in_output [''output'', ''orders.csv''] (loaded site_code_in_output)
   \<and> is_file site_code_in_output [''output'', ''orders.csv'']
        (snd (get_orders site_code_in_output (loaded site_code_in_output)))"
  by (simp add: prog_defs lib_defs site_root_is_cwd_def site_code_in_output_def site_defs Let_def)

text \<open>
  C10 as amended: the only file \<open>get_orders\<close> can write is \<open>orders.csv\<close> in the
  directory of the source file, and when it returns the orders that file holds the
  downloaded content; whenever the location of that file does not lie under the location
  of the output root, no file located under the output root is created or changed.
\<close>

theorem get_orders_writes_csv_beside_source:
  fixes E :: "'p env"
  shows "(files (snd (get_orders E w)) = files w \<or>
          (\<exists>content. files (snd (get_orders E w)) =
             AList.update (loc E (joinpath (CURDIR E) ''orders.csv'')) (Bytes content) (files w)))
       \<and> (\<forall>orders w'. get_orders E w = (Inr orders, w') \<longrightarrow>
            (\<exists>status content. http_get E CSV_URL = Inr (status, content) \<and>
               file_at E w' (joinpath (CURDIR E) ''orders.csv'') = Some (Bytes content)))
       \<and> (\<not> prefix (loc E (OUTPUT_DIR E)) (loc E (joinpath (CURDIR E) ''orders.csv'')) \<longrightarrow>
            (\<forall>l. prefix (loc E (OUTPUT_DIR E)) l \<longrightarrow>
               map_of (files (snd (get_orders E w))) l = map_of (files w) l))"
proof (intro conjI allI impI)
  obtain r w' where g: "get_orders E w = (r, w')" by fastforce
  from get_orders_files[OF g] g
  show "files (snd (get_orders E w)) = files w \<or>
          (\<exists>content. files (snd (get_orders E w)) =
             AList.update (loc E (joinpath (CURDIR E) ''orders.csv'')) (Bytes content) (files w))"
    by (auto simp: FILE_NAME_def)
next
  fix orders w' assume g: "get_orders E w = (Inr orders, w')"
  obtain r1 w1 where d: "download_file E CSV_URL (CURDIR E) FILE_NAME w = (r1, w1)"
    by fastforce
  have w1: "w' = w1" and r1: "\<exists>f. r1 = Inr f"
    using g d
    by (cases r1; auto simp: get_orders_def read_table_from_csv_def split: option.splits)+
  from download_file_files[OF d] r1 obtain status content where
    "http_get E CSV_URL = Inr (status, content)"
    "files w1 = AList.update (loc E (joinpath (CURDIR E) FILE_NAME)) (Bytes content) (files w)"
    by auto
  then show "\<exists>status content. http_get E CSV_URL = Inr (status, content) \<and>
               file_at E w' (joinpath (CURDIR E) ''orders.csv'') = Some (Bytes content)"
    using w1 by (auto simp: FILE_NAME_def update_conv' file_at_def)
next
  fix l
  assume out: "\<not> prefix (loc E (OUTPUT_DIR E)) (loc E (joinpath (CURDIR E) ''orders.csv''))"
    and l: "prefix (loc E (OUTPUT_DIR E)) l"
  then have ne: "l \<noteq> loc E (joinpath (CURDIR E) ''orders.csv'')" by auto
  obtain r w' where g: "get_orders E w = (r, w')" by fastforce
  from get_orders_files[OF g] g ne
  show "map_of (files (snd (get_orders E w))) l = map_of (files w) l"
    by (auto simp: FILE_NAME_def update_conv')
qed

text \<open>
  Witness for C10: the default setting, tasks.py in the working directory \<open>/work\<close>, the
  module loaded.  The CSV is written to \<open>/work/orders.csv\<close>, which is not under
  \<open>/work/output\<close>, and nothing is at \<open>/work/output/orders/order_1.pdf\<close> before or after.
\<close>

theorem get_orders_writes_csv_beside_source_witness:
  "\<not> prefix (loc demo_site (OUTPUT_DIR demo_site))
        (loc demo_site (joinpath (CURDIR demo_site) ''orders.csv''))
   \<and> prefix (loc demo_site (OUTPUT_DIR demo_site))
        [''/'', ''work'', ''output'', ''orders'', ''order_1.pdf'']
   \<and> map_of (files (snd (get_orders demo_site (loaded demo_site))))
        [''/'', ''work'', ''output'', ''orders'', ''order_1.pdf'']
       = map_of (files (loaded demo_site)) [''/'', ''work'', ''output'', ''orders'', ''order_1.pdf'']
   \<and> get_orders demo_site (loaded demo_site) =
       (Inr [order1],
        (loaded demo_site)\<lparr>files := [([''/'', ''work'', ''orders.csv''], Bytes demo_csv)],
              calls := [HttpGet CSV_URL]\<rparr>)
   \<and> (\<exists>status content. http_get demo_site CSV_URL = Inr (status, content) \<and>
         file_at demo_site
           ((loaded demo_site)\<lparr>files := [([''/'', ''work'', ''orders.csv''], Bytes demo_csv)],
              calls := [HttpGet CSV_URL]\<rparr>) (joinpath (CURDIR demo_site) ''orders.csv'')
           = Some (Bytes content))"
proof -
  have out: "\<not> prefix (loc demo_site (OUTPUT_DIR demo_site))
        (loc demo_site (joinpath (CURDIR demo_site) ''orders.csv''))"
    by (simp add: prog_defs lib_defs site_defs)
  have p: "prefix (loc demo_site (OUTPUT_DIR demo_site))
        [''/'', ''work'', ''output'', ''orders'', ''order_1.pdf'']"
    by (simp add: prog_defs lib_defs site_defs)
  have g: "get_orders demo_site (loaded demo_site) =
       (Inr [order1],
        (loaded demo_site)\<lparr>files := [([''/'', ''work'', ''orders.csv''], Bytes demo_csv)],
              calls := [HttpGet CSV_URL]\<rparr>)"
    by (simp add: prog_defs lib_defs site_defs Let_def)
  note T = get_orders_writes_csv_beside_source[of demo_site "loaded demo_site"]
  from T[THEN conjunct2, THEN conjunct2, rule_format, OF out p]
    T[THEN conjunct2, THEN conjunct1, rule_format, OF g] out p g
  show ?thesis by blast
qed

subsection \<open>C6: the screenshot file is missing\<close>

text \<open>
  Claim C6: for every call to \<open>store_receipt_as_pdf\<close>, if the receipt screenshot file is
  not on disk after the capture call, the operation raises \<open>FileNotFoundError\<close> and no
  PDF file is written for that order (the composition step is not reached on this path).

  The check of line 82 is reached when the capture statement of lines 75 to 79 has
  returned; \<open>w2\<close> is the world at that point.  If the receipt file is not there, the
  function raises \<open>FileNotFoundError\<close> in that very world: nothing is written after the
  capture, the content at the PDF path is what it was before the call, and the two
  screenshot calls are all the function has made.
\<close>

theorem missing_receipt_file_raises:
  fixes E :: "'p env"
  assumes "capture E n (mkdir_parents E (OUTPUT_DIR E) w) = (Inr (), w2)"
    and "\<not> is_file E (receipt_path E n) w2"
  shows "store_receipt_as_pdf E n w = (Inl FileNotFoundError, w2)
       \<and> file_at E w2 (pdf_path E n) = file_at E w (pdf_path E n)
       \<and> calls w2 = calls w @ [Screenshot ''#receipt'' (receipt_path E n),
                               Screenshot ''#robot-preview-image'' (robot_path E n)]"
proof -
  have 1: "store_receipt_as_pdf E n w = (Inl FileNotFoundError, w2)"
    using assms by (simp add: store_receipt_as_pdf_def Let_def)
  have 2: "file_at E w2 (pdf_path E n) = file_at E w (pdf_path E n)"
    using capture_files_other[OF assms(1), of "loc E (pdf_path E n)"]
    by (simp add: file_at_def)
  have 3: "calls w2 = calls w @ [Screenshot ''#receipt'' (receipt_path E n),
                               Screenshot ''#robot-preview-image'' (robot_path E n)]"
    using capture_calls[OF assms(1)] by auto
  from 1 2 3 show ?thesis by simp
qed

text \<open>
  Witness for C6: the receipt screenshot returns without writing its file, the module
  loaded.
\<close>

theorem missing_receipt_file_raises_witness:
  "capture site_silent_capture ''1''
     (mkdir_parents site_silent_capture (OUTPUT_DIR site_silent_capture)
        (loaded site_silent_capture)) =
     (Inr (),
      (loaded site_silent_capture)
        \<lparr>files := [([''/'', ''work'', ''output'', ''robot_1.png''], Bytes ''#robot-preview-image'')],
         calls := [Screenshot ''#receipt'' [''output'', ''receipt_1.png''],
                   Screenshot ''#robot-preview-image'' [''output'', ''robot_1.png'']]\<rparr>)
   \<and> \<not> is_file site_silent_capture (receipt_path site_silent_capture ''1'')
        ((loaded site_silent_capture)
        \<lparr>files := [([''/'', ''work'', ''output'', ''robot_1.png''], Bytes ''#robot-preview-image'')],
         calls := [Screenshot ''#receipt'' [''output'', ''receipt_1.png''],
                   Screenshot ''#robot-preview-image'' [''output'', ''robot_1.png'']]\<rparr>)
   \<and> store_receipt_as_pdf site_silent_capture ''1'' (loaded site_silent_capture) =
     (Inl FileNotFoundError,
      (loaded site_silent_capture)
        \<lparr>files := [([''/'', ''work'', ''output'', ''robot_1.png''], Bytes ''#robot-preview-image'')],
         calls := [Screenshot ''#receipt'' [''output'', ''receipt_1.png''],
                   Screenshot ''#robot-preview-image'' [''output'', ''robot_1.png'']]\<rparr>)"
proof -
  have c: "capture site_silent_capture ''1''
     (mkdir_parents site_silent_capture (OUTPUT_DIR site_silent_capture)
        (loaded site_silent_capture)) =
     (Inr (),
      (loaded site_silent_capture)
        \<lparr>files := [([''/'', ''work'', ''output'', ''robot_1.png''], Bytes ''#robot-preview-image'')],
         calls := [Screenshot ''#receipt'' [''output'', ''receipt_1.png''],
                   Screenshot ''#robot-preview-image'' [''output'', ''robot_1.png'']]\<rparr>)"
    apply (simp add: prog_defs lib_defs site_silent_capture_def site_defs Let_def)
    apply blast
    done
  have f: "\<not> is_file site_silent_capture (receipt_path site_silent_capture ''1'')
        ((loaded site_silent_capture)
        \<lparr>files := [([''/'', ''work'', ''output'', ''robot_1.png''], Bytes ''#robot-preview-image'')],
         calls := [Screenshot ''#receipt'' [''output'', ''receipt_1.png''],
                   Screenshot ''#robot-preview-image'' [''output'', ''robot_1.png'']]\<rparr>)"
    by (simp add: prog_defs lib_defs site_silent_capture_def site_defs Let_def)
  note T = missing_receipt_file_raises[OF c f]
  show ?thesis by (rule conjI[OF c conjI[OF f T[THEN conjunct1]]])
qed

subsection \<open>C7: the composed PDF\<close>

text \<open>
  Claim C7: for every successful call to \<open>store_receipt_as_pdf\<close> with order number \<open>n\<close>,
  the two captured images are combined into one PDF in the order receipt image, robot
  image; the PDF is written to \<open>orders/order_<n>.pdf\<close> under the output root, and that path
  is returned.

  The returned path is \<open>OUTPUT_DIR / "orders" / "order_<n>.pdf"\<close>.  After the call the file
  at that path is the PDF of the two files at \<open>receipt_<n>.png\<close> and \<open>robot_<n>.png\<close>, in
  that order.  The second is the image the screenshot of the robot wrote.  The first is the
  image the screenshot of the receipt wrote whenever the two screenshots are two files,
  and they are for every order number without a slash, as every number is.  (The order
  number is a text of the CSV file; with a slash in it the two file names can be paths to
  one and the same file, which then holds the image of the robot.)
\<close>

theorem store_receipt_as_pdf_result:
  fixes E :: "'p env"
  assumes "store_receipt_as_pdf E n w = (Inr p, w')"
  shows "p = joinpath (joinpath (OUTPUT_DIR E) ''orders'') (''order_'' @ n @ ''.pdf'')
       \<and> (\<exists>a b.
            file_at E w' (joinpath (OUTPUT_DIR E) (''receipt_'' @ n @ ''.png'')) = Some a \<and>
            file_at E w' (joinpath (OUTPUT_DIR E) (''robot_'' @ n @ ''.png'')) = Some b \<and>
            file_at E w' p = Some (Pdf [a, b]) \<and>
            (loc E (receipt_path E n) \<noteq> loc E (robot_path E n) \<longrightarrow>
               (\<forall>png. shot E (page w) ''#receipt'' = Some png \<longrightarrow> a = Bytes png)) \<and>
            (\<forall>p1 png. respond E (page w) (Screenshot ''#receipt'' (receipt_path E n)) = Inr p1 \<longrightarrow>
                shot E p1 ''#robot-preview-image'' = Some png \<longrightarrow> b = Bytes png))
       \<and> (CHR ''/'' \<notin> set n \<longrightarrow> loc E (receipt_path E n) \<noteq> loc E (robot_path E n))"
  using assms
proof (cases rule: store_receipt_cases)
  case (stored w2 a b)
  from capture_images[OF stored(1)] obtain p1 where
    c: "respond E (page (mkdir_parents E (OUTPUT_DIR E) w))
           (Screenshot ''#receipt'' (receipt_path E n)) = Inr p1 \<and>
        (loc E (receipt_path E n) \<noteq> loc E (robot_path E n) \<longrightarrow>
            (\<forall>png. shot E (page (mkdir_parents E (OUTPUT_DIR E) w)) ''#receipt'' = Some png \<longrightarrow>
               file_at E w2 (receipt_path E n) = Some (Bytes png))) \<and>
        (\<forall>png. shot E p1 ''#robot-preview-image'' = Some png \<longrightarrow>
               file_at E w2 (robot_path E n) = Some (Bytes png))"
    by (rule exE)
  have p1: "respond E (page w) (Screenshot ''#receipt'' (receipt_path E n)) = Inr p1"
    using c[THEN conjunct1] by simp
  have ra: "loc E (receipt_path E n) \<noteq> loc E (robot_path E n) \<Longrightarrow>
              shot E (page w) ''#receipt'' = Some png \<Longrightarrow>
              file_at E w2 (receipt_path E n) = Some (Bytes png)" for png
    using c[THEN conjunct2, THEN conjunct1] by simp
  have rb: "shot E p1 ''#robot-preview-image'' = Some png \<Longrightarrow>
              file_at E w2 (robot_path E n) = Some (Bytes png)" for png
    using c[THEN conjunct2, THEN conjunct2] by simp
  have 1: "p = joinpath (joinpath (OUTPUT_DIR E) ''orders'') (''order_'' @ n @ ''.pdf'')"
    using stored(6) assms by (simp add: pdf_path_def ORDERS_DIR_def)
  have 2: "file_at E w' (joinpath (OUTPUT_DIR E) (''receipt_'' @ n @ ''.png'')) = Some a"
    using stored(2,5) paths_distinct(3)[of E n n] by (simp add: receipt_path_def)
  have 3: "file_at E w' (joinpath (OUTPUT_DIR E) (''robot_'' @ n @ ''.png'')) = Some b"
    using stored(3,5) paths_distinct(4)[of E n n] by (simp add: robot_path_def)
  have 4: "file_at E w' p = Some (Pdf [a, b])"
    using stored(5,6) assms by simp
  have 5: "loc E (receipt_path E n) \<noteq> loc E (robot_path E n) \<longrightarrow>
             (\<forall>png. shot E (page w) ''#receipt'' = Some png \<longrightarrow> a = Bytes png)"
    using ra stored(2) by auto
  have 6: "\<forall>q png. respond E (page w) (Screenshot ''#receipt'' (receipt_path E n)) = Inr q \<longrightarrow>
                shot E q ''#robot-preview-image'' = Some png \<longrightarrow> b = Bytes png"
    using rb stored(3) p1 by auto
  have 7: "CHR ''/'' \<notin> set n \<longrightarrow> loc E (receipt_path E n) \<noteq> loc E (robot_path E n)"
    by (simp add: receipt_robot_distinct)
  have "\<exists>a b.
            file_at E w' (joinpath (OUTPUT_DIR E) (''receipt_'' @ n @ ''.png'')) = Some a \<and>
            file_at E w' (joinpath (OUTPUT_DIR E) (''robot_'' @ n @ ''.png'')) = Some b \<and>
            file_at E w' p = Some (Pdf [a, b]) \<and>
            (loc E (receipt_path E n) \<noteq> loc E (robot_path E n) \<longrightarrow>
               (\<forall>png. shot E (page w) ''#receipt'' = Some png \<longrightarrow> a = Bytes png)) \<and>
            (\<forall>p1 png. respond E (page w) (Screenshot ''#receipt'' (receipt_path E n)) = Inr p1 \<longrightarrow>
                shot E p1 ''#robot-preview-image'' = Some png \<longrightarrow> b = Bytes png)"
    apply (rule exI[of _ a])
    apply (rule exI[of _ b])
    by (intro conjI 2 3 4 5 6)
  with 1 7 show ?thesis by (intro conjI)
qed simp_all

text \<open>
  Witness for C7: order 1 on the demo site, the module loaded, so that \<open>output/orders\<close>
  exists.  The call returns the path of the PDF, and the PDF holds the image of the
  receipt, then the image of the robot.
\<close>

theorem store_receipt_as_pdf_result_witness:
  "store_receipt_as_pdf demo_site ''1'' (loaded demo_site) =
     (Inr [''output'', ''orders'', ''order_1.pdf''],
      (loaded demo_site)
        \<lparr>files := [([''/'', ''work'', ''output'', ''receipt_1.png''], Bytes ''#receipt''),
                   ([''/'', ''work'', ''output'', ''robot_1.png''], Bytes ''#robot-preview-image''),
                   ([''/'', ''work'', ''output'', ''orders'', ''order_1.pdf''],
                    Pdf [Bytes ''#receipt'', Bytes ''#robot-preview-image''])],
         calls := [Screenshot ''#receipt'' [''output'', ''receipt_1.png''],
                   Screenshot ''#robot-preview-image'' [''output'', ''robot_1.png'']]\<rparr>)
   \<and> [''output'', ''orders'', ''order_1.pdf''] =
       joinpath (joinpath (OUTPUT_DIR demo_site) ''orders'') (''order_'' @ ''1'' @ ''.pdf'')
   \<and> CHR ''/'' \<notin> set ''1''
   \<and> shot demo_site (page (loaded demo_site)) ''#receipt'' = Some ''#receipt''
   \<and> (\<exists>a b. file_at demo_site
          ((loaded demo_site)
        \<lparr>files := [([''/'', ''work'', ''output'', ''receipt_1.png''], Bytes ''#receipt''),
                   ([''/'', ''work'', ''output'', ''robot_1.png''], Bytes ''#robot-preview-image''),
                   ([''/'', ''work'', ''output'', ''orders'', ''order_1.pdf''],
                    Pdf [Bytes ''#receipt'', Bytes ''#robot-preview-image''])],
         calls := [Screenshot ''#receipt'' [''output'', ''receipt_1.png''],
                   Screenshot ''#robot-preview-image'' [''output'', ''robot_1.png'']]\<rparr>)
          [''output'', ''orders'', ''order_1.pdf''] = Some (Pdf [a, b]) \<and>
        a = Bytes ''#receipt'')"
proof -
  have s: "store_receipt_as_pdf demo_site ''1'' (loaded demo_site) =
     (Inr [''output'', ''orders'', ''order_1.pdf''],
      (loaded demo_site)
        \<lparr>files := [([''/'', ''work'', ''output'', ''receipt_1.png''], Bytes ''#receipt''),
                   ([''/'', ''work'', ''output'', ''robot_1.png''], Bytes ''#robot-preview-image''),
                   ([''/'', ''work'', ''output'', ''orders'', ''order_1.pdf''],
                    Pdf [Bytes ''#receipt'', Bytes ''#robot-preview-image''])],
         calls := [Screenshot ''#receipt'' [''output'', ''receipt_1.png''],
                   Screenshot ''#robot-preview-image'' [''output'', ''robot_1.png'']]\<rparr>)"
    apply (simp add: prog_defs lib_defs site_defs Let_def)
    apply blast
    done
  have n: "CHR ''/'' \<notin> set ''1''" by simp
  have sh: "shot demo_site (page (loaded demo_site)) ''#receipt'' = Some ''#receipt''"
    by (simp add: demo_site_def)
  note T = store_receipt_as_pdf_result[OF s]
  from T[THEN conjunct2, THEN conjunct2] n
  have d: "loc demo_site (receipt_path demo_site ''1'') \<noteq> loc demo_site (robot_path demo_site ''1'')"
    by simp
  from T[THEN conjunct2, THEN conjunct1] obtain a b where
    ab: "file_at demo_site
          ((loaded demo_site)
        \<lparr>files := [([''/'', ''work'', ''output'', ''receipt_1.png''], Bytes ''#receipt''),
                   ([''/'', ''work'', ''output'', ''robot_1.png''], Bytes ''#robot-preview-image''),
                   ([''/'', ''work'', ''output'', ''orders'', ''order_1.pdf''],
                    Pdf [Bytes ''#receipt'', Bytes ''#robot-preview-image''])],
         calls := [Screenshot ''#receipt'' [''output'', ''receipt_1.png''],
                   Screenshot ''#robot-preview-image'' [''output'', ''robot_1.png'']]\<rparr>)
          [''output'', ''orders'', ''order_1.pdf''] = Some (Pdf [a, b])"
    and a: "loc demo_site (receipt_path demo_site ''1'') \<noteq>
              loc demo_site (robot_path demo_site ''1'') \<longrightarrow>
       (\<forall>png. shot demo_site (page (loaded demo_site)) ''#receipt'' = Some png \<longrightarrow> a = Bytes png)"
    by (elim exE conjE)
  from a d sh have "a = Bytes ''#receipt''" by simp
  with ab have e: "\<exists>a b. file_at demo_site
          ((loaded demo_site)
        \<lparr>files := [([''/'', ''work'', ''output'', ''receipt_1.png''], Bytes ''#receipt''),
                   ([''/'', ''work'', ''output'', ''robot_1.png''], Bytes ''#robot-preview-image''),
                   ([''/'', ''work'', ''output'', ''orders'', ''order_1.pdf''],
                    Pdf [Bytes ''#receipt'', Bytes ''#robot-preview-image''])],
         calls := [Screenshot ''#receipt'' [''output'', ''receipt_1.png''],
                   Screenshot ''#robot-preview-image'' [''output'', ''robot_1.png'']]\<rparr>)
          [''output'', ''orders'', ''order_1.pdf''] = Some (Pdf [a, b]) \<and>
        a = Bytes ''#receipt''"
    by (intro exI conjI)
  show ?thesis by (intro conjI s T[THEN conjunct1] n sh e)
qed

subsection \<open>C5: what a successful run leaves behind\<close>

text \<open>
  Claim C5: for every valid CSV input with \<open>N\<close> unique order numbers, a successful run
  produces exactly \<open>N\<close> PDF files under \<open>orders/\<close>, one named \<open>order_<n>.pdf\<close> per order,
  and a \<open>receipts.zip\<close> containing all of them.

  The archive is made from the literal folder \<open>./output/orders/\<close> (line 186, the defect
  of C2), while the PDF files are written under the configured output root.  Take
  \<^verbatim>\<open>ROBOT_ARTIFACTS=artifacts\<close>, a CSV with the single order 1, and a working directory in
  which an earlier run has left \<open>output/orders/order_7.pdf\<close>.  The run returns normally and
  writes \<open>artifacts/orders/order_1.pdf\<close>, and \<open>artifacts/receipts.zip\<close> holds
  \<open>order_7.pdf\<close> and not \<open>order_1.pdf\<close>: the archive does not contain the PDF file of the
  run.
\<close>

theorem successful_run_archive_misses_receipt:
  "read_csv site_artifacts (Bytes demo_csv) = Inr [order1]
   \<and> pdf_path site_artifacts (order_number order1) = [''artifacts'', ''orders'', ''order_1.pdf'']
   \<and> result_files (run site_artifacts earlier_run) =
       Some (Inr (),
         [([''/'', ''work'', ''output'', ''orders'', ''order_7.pdf''], Pdf [Bytes ''old'']),
          ([''/'', ''work'', ''orders.csv''], Bytes demo_csv),
          ([''/'', ''work'', ''artifacts'', ''receipt_1.png''], Bytes ''#receipt''),
          ([''/'', ''work'', ''artifacts'', ''robot_1.png''], Bytes ''#robot-preview-image''),
          ([''/'', ''work'', ''artifacts'', ''orders'', ''order_1.pdf''],
           Pdf [Bytes ''#receipt'', Bytes ''#robot-preview-image'']),
          ([''/'', ''work'', ''artifacts'', ''receipts.zip''],
           Zip [([''order_7.pdf''], Pdf [Bytes ''old''])])])"
proof (intro conjI)
  show "read_csv site_artifacts (Bytes demo_csv) = Inr [order1]"
    by (simp add: site_artifacts_def demo_site_def)
  show "pdf_path site_artifacts (order_number order1) =
          [''artifacts'', ''orders'', ''order_1.pdf'']"
    by (simp add: prog_defs lib_defs site_artifacts_def site_defs)
  show "result_files (run site_artifacts earlier_run) =
       Some (Inr (),
         [([''/'', ''work'', ''output'', ''orders'', ''order_7.pdf''], Pdf [Bytes ''old'']),
          ([''/'', ''work'', ''orders.csv''], Bytes demo_csv),
          ([''/'', ''work'', ''artifacts'', ''receipt_1.png''], Bytes ''#receipt''),
          ([''/'', ''work'', ''artifacts'', ''robot_1.png''], Bytes ''#robot-preview-image''),
          ([''/'', ''work'', ''artifacts'', ''orders'', ''order_1.pdf''],
           Pdf [Bytes ''#receipt'', Bytes ''#robot-preview-image'']),
          ([''/'', ''work'', ''artifacts'', ''receipts.zip''],
           Zip [([''order_7.pdf''], Pdf [Bytes ''old''])])])"
    by (simp add: result_files_def prog_defs lib_defs site_artifacts_def earlier_run_def
        site_defs Let_def resubmit_loop.simps)
qed

end
